theory Spec2Isabelle
  imports Complex_Main
begin

unbundle bit_operations_syntax

section \<open>Python values used by track\_fish.py\<close>

text \<open>
  A Python \<open>str\<close> is a sequence of Unicode code points, so a string is a list of
  code points here; \<open>py\<close> reads an ASCII literal as such a string.
\<close>

type_synonym pystr = "nat list"

definition py :: "string \<Rightarrow> pystr" where
  "py s = map of_char s"

datatype error = ValueError

text \<open>
  \<open>str.isdigit\<close> and \<open>int\<close> look at the Unicode property Numeric\_Type of each
  character: \<open>isdigit\<close> accepts the types Decimal and Digit, \<open>int\<close> converts the
  type Decimal only. Below code point 256 the property is written out: the ASCII digits
  are Decimal, the superscripts two, three and one (U+00B2, U+00B3, U+00B9) are Digit.
  From 256 on it is a parameter \<open>ucd\<close> of the model.
\<close>

datatype numeric_type = Decimal nat | Digit nat | NoDigit

definition latin1_numeric_type :: "nat \<Rightarrow> numeric_type" where
  "latin1_numeric_type c =
     (if 48 \<le> c \<and> c \<le> 57 then Decimal (c - 48)
      else if c = 178 then Digit 2
      else if c = 179 then Digit 3
      else if c = 185 then Digit 1
      else NoDigit)"

definition numeric_type_of :: "(nat \<Rightarrow> numeric_type) \<Rightarrow> nat \<Rightarrow> numeric_type" where
  "numeric_type_of ucd c = (if c < 256 then latin1_numeric_type c else ucd c)"

text \<open>\<open>s.isdigit()\<close>: at least one character, and every character a digit.\<close>

definition isdigit :: "(nat \<Rightarrow> numeric_type) \<Rightarrow> pystr \<Rightarrow> bool" where
  "isdigit ucd s = (s \<noteq> [] \<and> list_all (\<lambda>c. numeric_type_of ucd c \<noteq> NoDigit) s)"

text \<open>
  \<open>int(s)\<close> in base 10, on the strings that reach it in \<open>main\<close>: they have passed
  \<open>isdigit\<close>, so they hold no sign, blank or underscore. A character that is not of
  type Decimal raises ValueError. The interpreter's limit on the number of digits that
  \<open>int\<close> converts is not modelled.
\<close>

fun int_digits :: "(nat \<Rightarrow> numeric_type) \<Rightarrow> pystr \<Rightarrow> int \<Rightarrow> error + int" where
  "int_digits ucd [] acc = Inr acc"
| "int_digits ucd (c # cs) acc =
     (case numeric_type_of ucd c of
        Decimal d \<Rightarrow> int_digits ucd cs (10 * acc + int d)
      | Digit d \<Rightarrow> Inl ValueError
      | NoDigit \<Rightarrow> Inl ValueError)"

definition int_str :: "(nat \<Rightarrow> numeric_type) \<Rightarrow> pystr \<Rightarrow> error + int" where
  "int_str ucd s = (if s = [] then Inl ValueError else int_digits ucd s 0)"

text \<open>
  \<open>int(x)\<close> on a float truncates towards zero. The values that the capture reports
  and the contour areas are finite doubles, hence rationals.
\<close>

definition int_float :: "rat \<Rightarrow> int" where
  "int_float x = (if 0 \<le> x then \<lfloor>x\<rfloor> else \<lceil>x\<rceil>)"

text \<open>\<open>str(n)\<close> of a counter, as the f-strings format it.\<close>

function str_nat :: "nat \<Rightarrow> pystr" where
  "str_nat n = (if n < 10 then [48 + n] else str_nat (n div 10) @ [48 + n mod 10])"
  by pat_completeness auto
termination
  by (relation "measure (\<lambda>n. n)") auto

declare str_nat.simps [simp del]

section \<open>The OpenCV interface\<close>

datatype source = Index int | Filename pystr

datatype cap_prop = CAP_PROP_FRAME_WIDTH | CAP_PROP_FRAME_HEIGHT | CAP_PROP_FPS

datatype cv_const =
    THRESH_BINARY | MORPH_ELLIPSE | MORPH_OPEN | MORPH_CLOSE
  | RETR_EXTERNAL | CHAIN_APPROX_SIMPLE | FONT_HERSHEY_SIMPLEX

text \<open>
  A capture object: whether it opened, what \<open>get\<close> reports, and what the successive
  calls of \<open>read\<close> return (\<open>cap_read c k\<close> is the result of call number \<open>k\<close>, counted
  from 0; \<open>None\<close> stands for \<open>ret = False\<close>).
\<close>

record 'i capture =
  isOpened :: bool
  cap_get :: "cap_prop \<Rightarrow> rat"
  cap_read :: "nat \<Rightarrow> 'i option"

type_synonym point = "int \<times> int"
type_synonym colour = "nat \<times> nat \<times> nat"

datatype draw =
    Rectangle point point colour nat
  | PutText pystr point cv_const rat colour nat

text \<open>A frame being annotated: the image that was read and what has been drawn on it.\<close>

record 'i frame =
  pixels :: 'i
  drawn :: "draw list"

text \<open>
  The library calls whose results the program uses, as parameters of the model. Images
  (frames, masks, kernels) have type \<open>'i\<close>, contours \<open>'c\<close>, the state of the background
  subtractor \<open>'b\<close>. \<open>waitKey k\<close> is the result of call number \<open>k\<close> of \<open>cv2.waitKey\<close>.
\<close>

record ('i, 'c, 'b) cv2 =
  VideoCapture :: "source \<Rightarrow> 'i capture"
  createBackgroundSubtractorMOG2 :: "nat \<Rightarrow> nat \<Rightarrow> bool \<Rightarrow> 'b"
  backSub_apply :: "'b \<Rightarrow> 'i \<Rightarrow> 'i \<times> 'b"
  threshold :: "'i \<Rightarrow> nat \<Rightarrow> nat \<Rightarrow> cv_const \<Rightarrow> 'i"
  getStructuringElement :: "cv_const \<Rightarrow> nat \<times> nat \<Rightarrow> 'i"
  morphologyEx :: "'i \<Rightarrow> cv_const \<Rightarrow> 'i \<Rightarrow> nat \<Rightarrow> 'i"
  findContours :: "'i \<Rightarrow> cv_const \<Rightarrow> cv_const \<Rightarrow> 'c list"
  contourArea :: "'c \<Rightarrow> rat"
  boundingRect :: "'c \<Rightarrow> int \<times> int \<times> int \<times> int"
  waitKey :: "nat \<Rightarrow> int"

text \<open>What the program does to the outside, in order.\<close>

datatype 'i event =
    Open source
  | Print pystr
  | CreateWriter pystr pystr int "int \<times> int"
  | Read bool
  | Write "'i frame"
  | Imshow pystr "'i frame"
  | WaitKey nat int
  | ReleaseCap
  | ReleaseOut
  | DestroyAllWindows

section \<open>The program\<close>

record args =
  video :: pystr
  out :: pystr
  min_area :: int
  debug :: bool

text \<open>Lines 24 to 27: the argument of \<open>cv2.VideoCapture\<close>.\<close>

definition select_source :: "(nat \<Rightarrow> numeric_type) \<Rightarrow> args \<Rightarrow> error + source" where
  "select_source ucd a =
     (if isdigit ucd (video a) then
        (case int_str ucd (video a) of
           Inl e \<Rightarrow> Inl e
         | Inr i \<Rightarrow> Inr (Index i))
      else Inr (Filename (video a)))"

text \<open>Lines 66 to 74: the loop over the contours of one frame.\<close>

fun for_contours ::
  "('i, 'c, 'b) cv2 \<Rightarrow> int \<Rightarrow> 'c list \<Rightarrow> nat \<Rightarrow> 'i frame \<Rightarrow> nat \<times> 'i frame" where
  "for_contours L m [] fish fr = (fish, fr)"
| "for_contours L m (cnt # cnts) fish fr =
     (let area = contourArea L cnt in
      if area < of_int m then for_contours L m cnts fish fr
      else
        (let fish' = fish + 1;
             (x, y, w, h) = boundingRect L cnt;
             fr' = fr\<lparr>drawn := drawn fr @
                     [Rectangle (x, y) (x + w, y + h) (0, 255, 0) 2,
                      PutText (py ''Fish '' @ str_nat fish') (x, y - 10)
                        FONT_HERSHEY_SIMPLEX (6 / 10) (255, 255, 255) 2]\<rparr>
         in for_contours L m cnts fish' fr'))"

text \<open>The state of \<open>main\<close> while the loop runs.\<close>

record ('i, 'b) state =
  fish_count :: nat
  frame_num :: nat
  backSub :: 'b
  reads :: nat
  keys :: nat
  trace :: "'i event list"

text \<open>Lines 54 to 63: from the frame to its contours.\<close>

definition frame_contours ::
  "('i, 'c, 'b) cv2 \<Rightarrow> 'b \<Rightarrow> 'i \<Rightarrow> 'c list \<times> 'i \<times> 'b" where
  "frame_contours L bs img =
     (let (fgMask0, bs') = backSub_apply L bs img;
          fgMask1 = threshold L fgMask0 200 255 THRESH_BINARY;
          kernel = getStructuringElement L MORPH_ELLIPSE (5, 5);
          fgMask2 = morphologyEx L fgMask1 MORPH_OPEN kernel 2;
          fgMask3 = morphologyEx L fgMask2 MORPH_CLOSE kernel 2;
          contours = findContours L fgMask3 RETR_EXTERNAL CHAIN_APPROX_SIMPLE
      in (contours, fgMask3, bs'))"

text \<open>Lines 51 to 80: one frame that was read, up to \<open>out.write(frame)\<close>.\<close>

definition process_frame ::
  "('i, 'c, 'b) cv2 \<Rightarrow> args \<Rightarrow> 'i \<Rightarrow> ('i, 'b) state \<Rightarrow> 'i \<times> 'i frame \<times> ('i, 'b) state" where
  "process_frame L a img s =
     (let s1 = s\<lparr>frame_num := frame_num s + 1\<rparr>;
          (contours, fgMask, bs') = frame_contours L (backSub s1) img;
          s2 = s1\<lparr>backSub := bs', fish_count := 0\<rparr>;
          (fish, fr) = for_contours L (min_area a) contours (fish_count s2)
                         \<lparr>pixels = img, drawn = []\<rparr>;
          s3 = s2\<lparr>fish_count := fish\<rparr>;
          fr1 = fr\<lparr>drawn := drawn fr @
                  [PutText (py ''Frame: '' @ str_nat (frame_num s3)) (10, 20)
                     FONT_HERSHEY_SIMPLEX (6 / 10) (0, 255, 255) 2]\<rparr>;
          fr2 = fr1\<lparr>drawn := drawn fr1 @
                  [PutText (py ''Fish detected: '' @ str_nat (fish_count s3)) (10, 45)
                     FONT_HERSHEY_SIMPLEX (6 / 10) (0, 255, 255) 2]\<rparr>
      in (fgMask, fr2, s3\<lparr>trace := trace s3 @ [Write fr2]\<rparr>))"

text \<open>Lines 48 to 86: one turn of \<open>while True\<close>, which ends in \<open>break\<close> or goes on.\<close>

datatype 's flow = Break 's | Continue 's

definition quit_key :: "int \<Rightarrow> bool" where
  "quit_key k = (k AND 255 \<in> set [113, 81])"

definition iteration ::
  "('i, 'c, 'b) cv2 \<Rightarrow> 'i capture \<Rightarrow> args \<Rightarrow> ('i, 'b) state \<Rightarrow> ('i, 'b) state flow" where
  "iteration L cap a s =
     (case cap_read cap (reads s) of
        None \<Rightarrow> Break (s\<lparr>reads := reads s + 1, trace := trace s @ [Read False]\<rparr>)
      | Some img \<Rightarrow>
          (let s0 = s\<lparr>reads := reads s + 1, trace := trace s @ [Read True]\<rparr>;
               (fgMask, fr, s1) = process_frame L a img s0
           in if debug a then
                (let key = waitKey L (keys s1);
                     s2 = s1\<lparr>keys := keys s1 + 1,
                             trace := trace s1 @
                               [Imshow (py ''Fish Tracking'') fr,
                                Imshow (py ''Foreground Mask'') \<lparr>pixels = fgMask, drawn = []\<rparr>,
                                WaitKey 30 key]\<rparr>
                 in if quit_key key then Break s2 else Continue s2)
              else Continue s1))"

text \<open>
  Lines 47 to 86. The loop ends only in a \<open>break\<close>; \<open>None\<close> is the run in which no
  \<open>break\<close> is ever reached.
\<close>

partial_function (option) while_True ::
  "('i, 'c, 'b) cv2 \<Rightarrow> 'i capture \<Rightarrow> args \<Rightarrow> ('i, 'b) state \<Rightarrow> ('i, 'b) state option" where
  "while_True L cap a s =
     (case iteration L cap a s of
        Break s' \<Rightarrow> Some s'
      | Continue s' \<Rightarrow> while_True L cap a s')"

declare while_True.simps [code]

text \<open>The three messages. The first characters are U+274C, U+1F3A5 and U+2705, the dash is U+2014.\<close>

definition msg_error :: pystr where
  "msg_error = 10060 # py '' ERROR: Cannot open video source:''"

definition msg_start :: pystr where
  "msg_start = 127909 # py '' Tracking fish... press [Q] to stop.''"

definition msg_finished :: pystr where
  "msg_finished = 9989 # py '' Tracking finished '' @ 8212 # py '' saved output video to: ''"

text \<open>How the process ends: with an exit status, or with an exception that nothing catches.\<close>

datatype ending = Exit nat | Uncaught error

text \<open>Line 39: \<open>int(cap.get(cv2.CAP_PROP_FPS)) or 30\<close>; an \<open>int\<close> is false when it is 0.\<close>

definition writer_fps :: "'i capture \<Rightarrow> int" where
  "writer_fps cap =
     (let fps = int_float (cap_get cap CAP_PROP_FPS) in if fps \<noteq> 0 then fps else 30)"

text \<open>Lines 34 to 45: from the opened capture to the state in which the loop starts.\<close>

definition startup ::
  "('i, 'c, 'b) cv2 \<Rightarrow> args \<Rightarrow> source \<Rightarrow> 'i capture \<Rightarrow> ('i, 'b) state" where
  "startup L a src cap =
     (let bs = createBackgroundSubtractorMOG2 L 500 50 True;
          frame_width = int_float (cap_get cap CAP_PROP_FRAME_WIDTH);
          frame_height = int_float (cap_get cap CAP_PROP_FRAME_HEIGHT);
          fps = writer_fps cap
      in \<lparr>fish_count = 0, frame_num = 0, backSub = bs, reads = 0, keys = 0,
          trace = [Open src,
                   CreateWriter (out a) (py ''mp4v'') fps (frame_width, frame_height),
                   Print msg_start]\<rparr>)"

text \<open>Lines 88 to 93: what follows the loop.\<close>

definition shutdown :: "args \<Rightarrow> ('i, 'b) state \<Rightarrow> 'i event list" where
  "shutdown a s =
     trace s @ [ReleaseCap, ReleaseOut] @
     (if debug a then [DestroyAllWindows] else []) @
     [Print (msg_finished @ out a)]"

text \<open>
  \<open>main\<close>, lines 20 to 93. The result is how the process ends and what it did, or
  \<open>None\<close> when the loop never ends.
\<close>

definition main ::
  "(nat \<Rightarrow> numeric_type) \<Rightarrow> ('i, 'c, 'b) cv2 \<Rightarrow> args \<Rightarrow> (ending \<times> 'i event list) option" where
  "main ucd L a =
     (case select_source ucd a of
        Inl e \<Rightarrow> Some (Uncaught e, [])
      | Inr src \<Rightarrow>
          (let cap = VideoCapture L src in
           if \<not> isOpened cap then
             Some (Exit 1, [Open src, Print (msg_error @ py '' '' @ video a)])
           else
             (case while_True L cap a (startup L a src cap) of
                None \<Rightarrow> None
              | Some s \<Rightarrow> Some (Exit 0, shutdown a s))))"

section \<open>Notions of the specification\<close>

text \<open>
  A contour counts as a fish when its area is greater than or equal to the cutoff; the
  fish of a frame are those of its contours, in the order of the contours.
\<close>

definition fish :: "('i, 'c, 'b) cv2 \<Rightarrow> int \<Rightarrow> 'c list \<Rightarrow> 'c list" where
  "fish L m cnts = filter (\<lambda>cnt. of_int m \<le> contourArea L cnt) cnts"

text \<open>The bounding box and the label of fish number \<open>k\<close>.\<close>

definition box_and_label :: "('i, 'c, 'b) cv2 \<Rightarrow> nat \<Rightarrow> 'c \<Rightarrow> draw list" where
  "box_and_label L k cnt =
     (case boundingRect L cnt of
        (x, y, w, h) \<Rightarrow>
          [Rectangle (x, y) (x + w, y + h) (0, 255, 0) 2,
           PutText (py ''Fish '' @ str_nat k) (x, y - 10)
             FONT_HERSHEY_SIMPLEX (6 / 10) (255, 255, 255) 2])"

text \<open>Boxes and labels for a list of fish, numbered from \<open>k + 1\<close>.\<close>

fun annotations :: "('i, 'c, 'b) cv2 \<Rightarrow> nat \<Rightarrow> 'c list \<Rightarrow> draw list" where
  "annotations L k [] = []"
| "annotations L k (cnt # cnts) = box_and_label L (Suc k) cnt @ annotations L (Suc k) cnts"

text \<open>The two overlay texts: the frame index and the fish count.\<close>

definition frame_text :: "nat \<Rightarrow> draw" where
  "frame_text k =
     PutText (py ''Frame: '' @ str_nat k) (10, 20) FONT_HERSHEY_SIMPLEX (6 / 10) (0, 255, 255) 2"

definition count_text :: "nat \<Rightarrow> draw" where
  "count_text n =
     PutText (py ''Fish detected: '' @ str_nat n) (10, 45) FONT_HERSHEY_SIMPLEX (6 / 10)
       (0, 255, 255) 2"

text \<open>Frame number \<open>k\<close> as it is written: boxes and labels of its fish, then the overlay.\<close>

definition annotated :: "('i, 'c, 'b) cv2 \<Rightarrow> args \<Rightarrow> nat \<Rightarrow> 'i \<Rightarrow> 'c list \<Rightarrow> 'i frame" where
  "annotated L a k img cnts =
     \<lparr>pixels = img,
      drawn = annotations L 0 (fish L (min_area a) cnts) @
              [frame_text k, count_text (length (fish L (min_area a) cnts))]\<rparr>"

text \<open>The frames handed to \<open>out.write\<close>, in order, and the writers created.\<close>

fun written :: "'i event list \<Rightarrow> 'i frame list" where
  "written [] = []"
| "written (Write fr # es) = fr # written es"
| "written (e # es) = written es"

fun writers :: "'i event list \<Rightarrow> (pystr \<times> pystr \<times> int \<times> int \<times> int) list" where
  "writers [] = []"
| "writers (CreateWriter f c r sz # es) = (f, c, r, sz) # writers es"
| "writers (e # es) = writers es"

text \<open>The events of the key-press check.\<close>

fun key_checks :: "'i event list \<Rightarrow> (nat \<times> int) list" where
  "key_checks [] = []"
| "key_checks (WaitKey d k # es) = (d, k) # key_checks es"
| "key_checks (e # es) = key_checks es"

text \<open>
  Turn number \<open>j\<close> counted from the state \<open>s\<close> ends the loop: its read fails, or the
  preview is on and its key is q or Q.
\<close>

definition stop_at ::
  "('i, 'c, 'b) cv2 \<Rightarrow> 'i capture \<Rightarrow> args \<Rightarrow> ('i, 'b) state \<Rightarrow> nat \<Rightarrow> bool" where
  "stop_at L cap a s j =
     (cap_read cap (reads s + j) = None \<or> (debug a \<and> quit_key (waitKey L (keys s + j))))"

text \<open>
  Turn number \<open>k\<close> of the loop, counted from 0 in a run in which all turns before it went
  on: the state of the background subtractor before it, whether it ends the loop, and its
  events.
\<close>

fun bs_before :: "('i, 'c, 'b) cv2 \<Rightarrow> 'i capture \<Rightarrow> nat \<Rightarrow> 'b" where
  "bs_before L cap 0 = createBackgroundSubtractorMOG2 L 500 50 True"
| "bs_before L cap (Suc k) =
     (case cap_read cap k of
        None \<Rightarrow> bs_before L cap k
      | Some img \<Rightarrow> snd (snd (frame_contours L (bs_before L cap k) img)))"

definition ends_at :: "('i, 'c, 'b) cv2 \<Rightarrow> 'i capture \<Rightarrow> args \<Rightarrow> nat \<Rightarrow> bool" where
  "ends_at L cap a k = (cap_read cap k = None \<or> (debug a \<and> quit_key (waitKey L k)))"

definition turn_events :: "('i, 'c, 'b) cv2 \<Rightarrow> 'i capture \<Rightarrow> args \<Rightarrow> nat \<Rightarrow> 'i event list" where
  "turn_events L cap a k =
     (case cap_read cap k of
        None \<Rightarrow> [Read False]
      | Some img \<Rightarrow>
          (case frame_contours L (bs_before L cap k) img of
             (cnts, fgMask, bs') \<Rightarrow>
               [Read True, Write (annotated L a (Suc k) img cnts)] @
               (if debug a then
                  [Imshow (py ''Fish Tracking'') (annotated L a (Suc k) img cnts),
                   Imshow (py ''Foreground Mask'') \<lparr>pixels = fgMask, drawn = []\<rparr>,
                   WaitKey 30 (waitKey L k)]
                else [])))"

text \<open>The events of the turns before turn \<open>k\<close>.\<close>

definition loop_events :: "('i, 'c, 'b) cv2 \<Rightarrow> 'i capture \<Rightarrow> args \<Rightarrow> nat \<Rightarrow> 'i event list" where
  "loop_events L cap a k = concat (map (turn_events L cap a) [0..<k])"

text \<open>The state in which turn \<open>k\<close> starts, when the events before the loop were \<open>t0\<close>.\<close>

definition at_turn ::
  "('i, 'c, 'b) cv2 \<Rightarrow> 'i capture \<Rightarrow> args \<Rightarrow> 'i event list \<Rightarrow> nat \<Rightarrow> ('i, 'b) state \<Rightarrow> bool" where
  "at_turn L cap a t0 k s =
     (frame_num s = k \<and> reads s = k \<and> (debug a \<longrightarrow> keys s = k) \<and>
      backSub s = bs_before L cap k \<and> trace s = t0 @ loop_events L cap a k)"

text \<open>The frame that turn \<open>k\<close> writes; none when its read fails.\<close>

definition expected_frame ::
  "('i, 'c, 'b) cv2 \<Rightarrow> 'i capture \<Rightarrow> args \<Rightarrow> nat \<Rightarrow> 'i frame option" where
  "expected_frame L cap a k =
     (case cap_read cap k of
        None \<Rightarrow> None
      | Some img \<Rightarrow>
          Some (annotated L a (Suc k) img (fst (frame_contours L (bs_before L cap k) img))))"

section \<open>Sample inputs\<close>

text \<open>
  A clip of two frames at 29.97 frames per second, a source that does not open, and a
  camera that delivers frames without end and reports no frame rate. Images are numbers;
  a contour is its area with its bounding rectangle.
\<close>

definition clip :: "nat capture" where
  "clip = \<lparr>isOpened = True,
           cap_get = (\<lambda>p. case p of CAP_PROP_FRAME_WIDTH \<Rightarrow> 640
                              | CAP_PROP_FRAME_HEIGHT \<Rightarrow> 480
                              | CAP_PROP_FPS \<Rightarrow> 2997 / 100),
           cap_read = (\<lambda>k. if k < 2 then Some k else None)\<rparr>"

definition closed :: "nat capture" where
  "closed = \<lparr>isOpened = False, cap_get = (\<lambda>p. 0), cap_read = (\<lambda>k. None)\<rparr>"

definition webcam :: "nat capture" where
  "webcam = \<lparr>isOpened = True,
             cap_get = (\<lambda>p. case p of CAP_PROP_FRAME_WIDTH \<Rightarrow> 640
                                | CAP_PROP_FRAME_HEIGHT \<Rightarrow> 480
                                | CAP_PROP_FPS \<Rightarrow> 0),
             cap_read = (\<lambda>k. Some k)\<rparr>"

definition lib :: "(nat, rat \<times> int \<times> int \<times> int \<times> int, unit) cv2" where
  "lib = \<lparr>VideoCapture =
            (\<lambda>src. case src of
                      Index i \<Rightarrow> webcam
                    | Filename f \<Rightarrow> if f = py ''pond.mp4'' then clip else closed),
          createBackgroundSubtractorMOG2 = (\<lambda>h v d. ()),
          backSub_apply = (\<lambda>b i. (i, b)),
          threshold = (\<lambda>i lo hi t. i),
          getStructuringElement = (\<lambda>sh sz. 0),
          morphologyEx = (\<lambda>i op k n. i),
          findContours =
            (\<lambda>i m ap. if i = 0 then [(799, 5, 6, 40, 20), (800, 100, 50, 40, 20)]
                       else [(2401 / 2, 7, 8, 60, 30), (3, 0, 0, 2, 2), (900, 10, 30, 30, 30)]),
          contourArea = fst,
          boundingRect = snd,
          waitKey = (\<lambda>k. if k = 1 then 113 else - 1)\<rparr>"

definition ascii_only :: "nat \<Rightarrow> numeric_type" where
  "ascii_only c = NoDigit"

definition pond_args :: args where
  "pond_args = \<lparr>video = py ''pond.mp4'', out = py ''fish_tracked.mp4'', min_area = 800,
                debug = False\<rparr>"

text \<open>
  The two frames of the clip as the program writes them with the cutoff 800, and what the
  program does on the clip without and with \<open>--debug\<close>. With the preview on, the second
  key is \<open>q\<close>.
\<close>

definition pond_frame0 :: "nat frame" where
  "pond_frame0 =
     \<lparr>pixels = 0,
      drawn = [Rectangle (100, 50) (140, 70) (0, 255, 0) 2,
               PutText (py ''Fish 1'') (100, 40) FONT_HERSHEY_SIMPLEX (6 / 10) (255, 255, 255) 2,
               frame_text 1, count_text 1]\<rparr>"

definition pond_frame1 :: "nat frame" where
  "pond_frame1 =
     \<lparr>pixels = 1,
      drawn = [Rectangle (7, 8) (67, 38) (0, 255, 0) 2,
               PutText (py ''Fish 1'') (7, - 2) FONT_HERSHEY_SIMPLEX (6 / 10) (255, 255, 255) 2,
               Rectangle (10, 30) (40, 60) (0, 255, 0) 2,
               PutText (py ''Fish 2'') (10, 20) FONT_HERSHEY_SIMPLEX (6 / 10) (255, 255, 255) 2,
               frame_text 2, count_text 2]\<rparr>"

definition pond_run :: "nat event list" where
  "pond_run =
     [Open (Filename (py ''pond.mp4'')),
      CreateWriter (py ''fish_tracked.mp4'') (py ''mp4v'') 29 (640, 480),
      Print msg_start,
      Read True, Write pond_frame0,
      Read True, Write pond_frame1,
      Read False,
      ReleaseCap, ReleaseOut,
      Print (msg_finished @ py ''fish_tracked.mp4'')]"

definition pond_debug_run :: "nat event list" where
  "pond_debug_run =
     [Open (Filename (py ''pond.mp4'')),
      CreateWriter (py ''fish_tracked.mp4'') (py ''mp4v'') 29 (640, 480),
      Print msg_start,
      Read True, Write pond_frame0,
      Imshow (py ''Fish Tracking'') pond_frame0,
      Imshow (py ''Foreground Mask'') \<lparr>pixels = 0, drawn = []\<rparr>,
      WaitKey 30 (- 1),
      Read True, Write pond_frame1,
      Imshow (py ''Fish Tracking'') pond_frame1,
      Imshow (py ''Foreground Mask'') \<lparr>pixels = 1, drawn = []\<rparr>,
      WaitKey 30 113,
      ReleaseCap, ReleaseOut, DestroyAllWindows,
      Print (msg_finished @ py ''fish_tracked.mp4'')]"

section \<open>The area cutoff\<close>

text \<open>
  The loop over the contours adds the number of fish to the count and draws the boxes and
  labels of the fish, numbered on from the count it started with.
\<close>

lemma for_contours_eq:
  "for_contours L m cnts n fr =
     (n + length (fish L m cnts), fr\<lparr>drawn := drawn fr @ annotations L n (fish L m cnts)\<rparr>)"
  by (induction cnts arbitrary: n fr)
     (auto simp: fish_def box_and_label_def Let_def split: prod.splits)

text \<open>
  C1. A contour is counted as a fish, and gets its bounding box and its label, if and only
  if its area is greater than or equal to the value of \<open>--min-area\<close>: one contour below
  the cutoff leaves count and frame as they are, one at or above it adds one to the count
  and draws its box and label; over a whole frame, started at count 0, the count is the
  number of contours at or above the cutoff and the boxes drawn are theirs, in order.
\<close>

theorem min_area_cutoff:
  "for_contours L m (cnt # cnts) n fr =
     (if of_int m \<le> contourArea L cnt
      then for_contours L m cnts (n + 1) (fr\<lparr>drawn := drawn fr @ box_and_label L (n + 1) cnt\<rparr>)
      else for_contours L m cnts n fr)
   \<and> for_contours L m cnts 0 fr =
       (length (filter (\<lambda>c. of_int m \<le> contourArea L c) cnts),
        fr\<lparr>drawn := drawn fr @ annotations L 0 (filter (\<lambda>c. of_int m \<le> contourArea L c) cnts)\<rparr>)"
proof
  show "for_contours L m (cnt # cnts) n fr =
     (if of_int m \<le> contourArea L cnt
      then for_contours L m cnts (n + 1) (fr\<lparr>drawn := drawn fr @ box_and_label L (n + 1) cnt\<rparr>)
      else for_contours L m cnts n fr)"
    by (auto simp: box_and_label_def Let_def split: prod.splits)
next
  show "for_contours L m cnts 0 fr =
       (length (filter (\<lambda>c. of_int m \<le> contourArea L c) cnts),
        fr\<lparr>drawn := drawn fr @ annotations L 0 (filter (\<lambda>c. of_int m \<le> contourArea L c) cnts)\<rparr>)"
    using for_contours_eq [of L m cnts 0 fr] by (simp add: fish_def)
qed

text \<open>
  On the sample library with the cutoff 800: the contour of area 799 is passed over, the
  one of area 800 is fish number 1.
\<close>

theorem min_area_cutoff_witness:
  "for_contours lib 800 [(799, 5, 6, 40, 20), (800, 100, 50, 40, 20)] 0 \<lparr>pixels = 0, drawn = []\<rparr> =
     (1, \<lparr>pixels = 0 :: nat,
          drawn = [Rectangle (100, 50) (140, 70) (0, 255, 0) 2,
                   PutText (py ''Fish 1'') (100, 40) FONT_HERSHEY_SIMPLEX (6 / 10)
                     (255, 255, 255) 2]\<rparr>)"
  using min_area_cutoff [of lib 800 "(800, 100, 50, 40, 20)" "[]" 0 "\<lparr>pixels = 0, drawn = []\<rparr>"]
    min_area_cutoff [of lib 800 "(799, 5, 6, 40, 20)" "[(800, 100, 50, 40, 20)]" 0
      "\<lparr>pixels = 0, drawn = []\<rparr>"]
  by (simp add: lib_def box_and_label_def py_def str_nat.simps)

section \<open>One frame, one turn of the loop\<close>

lemma process_frame_eq:
  "process_frame L a img s =
     (case frame_contours L (backSub s) img of
        (cnts, fgMask, bs') \<Rightarrow>
          (fgMask, annotated L a (Suc (frame_num s)) img cnts,
           s\<lparr>frame_num := Suc (frame_num s), backSub := bs',
             fish_count := length (fish L (min_area a) cnts),
             trace := trace s @ [Write (annotated L a (Suc (frame_num s)) img cnts)]\<rparr>))"
  by (simp add: process_frame_def for_contours_eq annotated_def frame_text_def count_text_def
        Let_def split: prod.splits)

lemma iteration_None:
  "cap_read cap (reads s) = None \<Longrightarrow>
   iteration L cap a s = Break (s\<lparr>reads := Suc (reads s), trace := trace s @ [Read False]\<rparr>)"
  by (simp add: iteration_def)

lemma iteration_Some:
  "cap_read cap (reads s) = Some img \<Longrightarrow>
   iteration L cap a s =
     (case frame_contours L (backSub s) img of
        (cnts, fgMask, bs') \<Rightarrow>
          (let fr = annotated L a (Suc (frame_num s)) img cnts;
               s1 = s\<lparr>frame_num := Suc (frame_num s), backSub := bs',
                      fish_count := length (fish L (min_area a) cnts),
                      reads := Suc (reads s),
                      trace := trace s @ [Read True, Write fr]\<rparr>
           in if debug a then
                (let s2 = s1\<lparr>keys := Suc (keys s),
                             trace := trace s1 @
                               [Imshow (py ''Fish Tracking'') fr,
                                Imshow (py ''Foreground Mask'') \<lparr>pixels = fgMask, drawn = []\<rparr>,
                                WaitKey 30 (waitKey L (keys s))]\<rparr>
                 in if quit_key (waitKey L (keys s)) then Break s2 else Continue s2)
              else Continue s1))"
  by (simp add: iteration_def process_frame_eq Let_def split: prod.splits)

lemma while_True_rule:
  assumes run: "while_True (L :: ('i, 'c, 'b) cv2) cap a s = Some s'" and init: "P s"
    and cont: "\<And>s s'. P s \<Longrightarrow> iteration L cap a s = Continue s' \<Longrightarrow> P s'"
    and brk: "\<And>s s'. P s \<Longrightarrow> iteration L cap a s = Break s' \<Longrightarrow> Q s'"
  shows "Q s'"
proof -
  let ?R = "\<lambda>L' cap' a' s y. L' = L \<longrightarrow> cap' = cap \<longrightarrow> a' = a \<longrightarrow> P s \<longrightarrow> Q y"
  have "?R L cap a s s'"
  proof (rule while_True.raw_induct [where P = ?R, OF _ run])
    fix f :: "('i, 'c, 'b) cv2 \<Rightarrow> 'i capture \<Rightarrow> args \<Rightarrow> ('i, 'b) state \<Rightarrow> ('i, 'b) state option"
    fix L' cap' a' s1 y
    assume IH: "\<And>L cap a s y. f L cap a s = Some y \<Longrightarrow> ?R L cap a s y"
      and step: "(case iteration L' cap' a' s1 of Break s' \<Rightarrow> Some s' | Continue s' \<Rightarrow> f L' cap' a' s') = Some y"
    show "?R L' cap' a' s1 y"
    proof (intro impI)
      assume eq: "L' = L" "cap' = cap" "a' = a" and P1: "P s1"
      show "Q y"
      proof (cases "iteration L cap a s1")
        case (Break s2)
        with step eq have "y = s2" by simp
        with brk [OF P1 Break] show ?thesis by simp
      next
        case (Continue s2)
        with step eq have "f L cap a s2 = Some y" by simp
        moreover have "P s2" by (rule cont [OF P1 Continue])
        ultimately show ?thesis using IH by blast
      qed
    qed
  qed
  with init show ?thesis by simp
qed

lemma iteration_Break_iff:
  "(\<exists>s'. iteration L cap a s = Break s') \<longleftrightarrow> stop_at L cap a s 0"
  by (cases "cap_read cap (reads s)")
     (auto simp: stop_at_def iteration_None iteration_Some Let_def split: prod.splits)

lemma iteration_Continue_stop:
  "iteration L cap a s = Continue s' \<Longrightarrow> stop_at L cap a s' j = stop_at L cap a s (Suc j)"
  by (cases "cap_read cap (reads s)")
     (auto simp: stop_at_def iteration_None iteration_Some Let_def split: prod.splits if_splits)

lemma while_True_terminates:
  "stop_at L cap a s j \<Longrightarrow> \<exists>s'. while_True L cap a s = Some s'"
proof (induction j arbitrary: s)
  case 0
  then obtain s' where "iteration L cap a s = Break s'"
    using iteration_Break_iff by blast
  then show ?case by (subst while_True.simps) simp
next
  case (Suc j)
  show ?case
  proof (cases "iteration L cap a s")
    case (Break s')
    then show ?thesis by (subst while_True.simps) simp
  next
    case (Continue s1)
    with Suc.prems have "stop_at L cap a s1 j"
      by (simp add: iteration_Continue_stop)
    then obtain s' where "while_True L cap a s1 = Some s'"
      using Suc.IH by blast
    with Continue show ?thesis by (subst while_True.simps) simp
  qed
qed

lemma while_True_stops:
  assumes "while_True L cap a s = Some s'"
  shows "\<exists>j. stop_at L cap a s j"
proof (rule ccontr)
  assume "\<not> (\<exists>j. stop_at L cap a s j)"
  then have "\<forall>j. \<not> stop_at L cap a s j" by blast
  with assms have False
  proof (rule while_True_rule [where P = "\<lambda>s. \<forall>j. \<not> stop_at L cap a s j" and Q = "\<lambda>s. False"])
    fix s s' assume "\<forall>j. \<not> stop_at L cap a s j" "iteration L cap a s = Continue s'"
    then show "\<forall>j. \<not> stop_at L cap a s' j" by (simp add: iteration_Continue_stop)
  next
    fix s s' assume "\<forall>j. \<not> stop_at L cap a s j" "iteration L cap a s = Break s'"
    then show False using iteration_Break_iff by blast
  qed
  then show False .
qed

section \<open>The run of the loop\<close>

text \<open>
  A turn that does not end the loop leads from the state of turn \<open>k\<close> to the state of
  turn \<open>k + 1\<close>; a turn that ends it leaves the events of the turns up to \<open>k\<close>. So the
  loop returns at the first turn that ends it, and never returns when no turn does.
\<close>

lemma loop_events_Suc:
  "loop_events L cap a (Suc k) = loop_events L cap a k @ turn_events L cap a k"
  by (simp add: loop_events_def)

lemma stop_at_startup:
  "stop_at L cap a (startup L a src cap) j = ends_at L cap a j"
  by (simp add: stop_at_def ends_at_def startup_def Let_def)

lemma at_turn_startup:
  "at_turn L cap a (trace (startup L a src cap)) 0 (startup L a src cap)"
  by (simp add: at_turn_def startup_def Let_def loop_events_def)

lemma at_turn_Continue:
  assumes "at_turn L cap a t0 k s" and "\<not> ends_at L cap a k"
  shows "\<exists>s1. iteration L cap a s = Continue s1 \<and> at_turn L cap a t0 (Suc k) s1"
proof -
  from assms(2) obtain img where img: "cap_read cap k = Some img"
    by (auto simp: ends_at_def)
  from assms(1) have r: "reads s = k" by (simp add: at_turn_def)
  obtain cnts fgMask bs' where fc: "frame_contours L (backSub s) img = (cnts, fgMask, bs')"
    by (cases "frame_contours L (backSub s) img") auto
  from assms img fc show ?thesis
    by (simp add: iteration_Some [of cap s img, unfolded r, OF img] r)
       (auto simp: at_turn_def ends_at_def Let_def loop_events_Suc turn_events_def)
qed


lemma at_turn_Break:
  assumes "at_turn L cap a t0 k s" and "ends_at L cap a k"
  shows "\<exists>s1. iteration L cap a s = Break s1 \<and> trace s1 = t0 @ loop_events L cap a (Suc k) \<and>
           frame_num s1 = (if cap_read cap k = None then k else Suc k)"
proof (cases "cap_read cap k")
  case None
  with assms(1) show ?thesis
    by (simp add: at_turn_def iteration_None loop_events_Suc turn_events_def)
next
  case (Some img)
  from assms(1) have r: "reads s = k" by (simp add: at_turn_def)
  obtain cnts fgMask bs' where fc: "frame_contours L (backSub s) img = (cnts, fgMask, bs')"
    by (cases "frame_contours L (backSub s) img") auto
  from assms Some fc show ?thesis
    by (simp add: iteration_Some [of cap s img, unfolded r, OF Some] r)
       (auto simp: at_turn_def ends_at_def Let_def loop_events_Suc turn_events_def)
qed

lemma while_True_from_turn:
  assumes "at_turn L cap a t0 j s" and "j \<le> k"
    and "\<forall>i. j \<le> i \<and> i < k \<longrightarrow> \<not> ends_at L cap a i" and "ends_at L cap a k"
  shows "\<exists>s'. while_True L cap a s = Some s' \<and> trace s' = t0 @ loop_events L cap a (Suc k) \<and>
           frame_num s' = (if cap_read cap k = None then k else Suc k)"
  using assms
proof (induction "k - j" arbitrary: j s)
  case 0
  then have "j = k" by simp
  with "0.prems" obtain s1 where "iteration L cap a s = Break s1"
      "trace s1 = t0 @ loop_events L cap a (Suc k)"
      "frame_num s1 = (if cap_read cap k = None then k else Suc k)"
    using at_turn_Break [of L cap a t0 k s] by blast
  then show ?case by (subst while_True.simps) simp
next
  case (Suc d)
  then have lt: "j < k" by simp
  with Suc.prems have "\<not> ends_at L cap a j" by simp
  with Suc.prems(1) obtain s1 where s1: "iteration L cap a s = Continue s1"
      "at_turn L cap a t0 (Suc j) s1"
    using at_turn_Continue [of L cap a t0 j s] by blast
  have "d = k - Suc j" using Suc.hyps(2) by simp
  moreover have "Suc j \<le> k" using lt by simp
  moreover have "\<forall>i. Suc j \<le> i \<and> i < k \<longrightarrow> \<not> ends_at L cap a i"
    using Suc.prems(3) by simp
  ultimately obtain s' where "while_True L cap a s1 = Some s'"
      "trace s' = t0 @ loop_events L cap a (Suc k)"
      "frame_num s' = (if cap_read cap k = None then k else Suc k)"
    using Suc.hyps(1) [of "Suc j" s1] s1(2) Suc.prems(4) by blast
  with s1(1) show ?case by (subst while_True.simps) simp
qed

lemma while_True_startup:
  assumes "\<forall>i<k. \<not> ends_at L cap a i" and "ends_at L cap a k"
  shows "\<exists>s'. while_True L cap a (startup L a src cap) = Some s' \<and>
           trace s' = trace (startup L a src cap) @ loop_events L cap a (Suc k) \<and>
           frame_num s' = (if cap_read cap k = None then k else Suc k)"
  using while_True_from_turn [OF at_turn_startup, of k L cap a src] assms by simp

lemma while_True_endless:
  assumes "\<forall>k. \<not> ends_at L cap a k"
  shows "while_True L cap a (startup L a src cap) = None"
proof (cases "while_True L cap a (startup L a src cap)")
  case None
  then show ?thesis .
next
  case (Some s')
  then obtain j where "stop_at L cap a (startup L a src cap) j"
    using while_True_stops by blast
  with assms show ?thesis by (simp add: stop_at_startup)
qed

lemma first_end:
  assumes "ends_at L cap a j"
  shows "\<exists>k\<le>j. (\<forall>i<k. \<not> ends_at L cap a i) \<and> ends_at L cap a k"
proof -
  let ?k = "LEAST k. ends_at L cap a k"
  have "ends_at L cap a ?k" using assms by (rule LeastI)
  moreover have "?k \<le> j" using assms by (rule Least_le)
  moreover have "\<forall>i<?k. \<not> ends_at L cap a i" using not_less_Least by blast
  ultimately show ?thesis by blast
qed

section \<open>The three ways \<open>main\<close> can go\<close>

lemma main_closed:
  assumes "select_source ucd a = Inr src" and "\<not> isOpened (VideoCapture L src)"
  shows "main ucd L a = Some (Exit 1, [Open src, Print (msg_error @ py '' '' @ video a)])"
  using assms by (simp add: main_def Let_def)

lemma main_ends:
  assumes "select_source ucd a = Inr src" and "isOpened (VideoCapture L src)"
    and "\<forall>i<k. \<not> ends_at L (VideoCapture L src) a i" and "ends_at L (VideoCapture L src) a k"
  shows "main ucd L a =
           Some (Exit 0,
                 trace (startup L a src (VideoCapture L src)) @
                 loop_events L (VideoCapture L src) a (Suc k) @
                 [ReleaseCap, ReleaseOut] @ (if debug a then [DestroyAllWindows] else []) @
                 [Print (msg_finished @ out a)])"
proof -
  obtain s' where "while_True L (VideoCapture L src) a (startup L a src (VideoCapture L src)) = Some s'"
    "trace s' = trace (startup L a src (VideoCapture L src)) @ loop_events L (VideoCapture L src) a (Suc k)"
    using while_True_startup [OF assms(3,4)] by blast
  with assms(1,2) show ?thesis by (simp add: main_def shutdown_def Let_def)
qed

lemma main_endless:
  assumes "select_source ucd a = Inr src" and "isOpened (VideoCapture L src)"
    and "\<forall>k. \<not> ends_at L (VideoCapture L src) a k"
  shows "main ucd L a = None"
  using assms while_True_endless [OF assms(3)] by (simp add: main_def Let_def)

lemma main_raises:
  assumes "select_source ucd a = Inl e"
  shows "main ucd L a = Some (Uncaught e, [])"
  using assms by (simp add: main_def Let_def)

section \<open>The sample runs\<close>

lemma int_float_clip_fps: "int_float (2997 / 100) = 29"
proof -
  have "\<lfloor>2997 / 100 :: rat\<rfloor> = 29"
    by (rule floor_unique) simp_all
  then show ?thesis by (simp add: int_float_def)
qed

lemma int_float_640: "int_float 640 = 640" and int_float_480: "int_float 480 = 480"
  by (simp_all add: int_float_def)

lemmas run_defs = main_def select_source_def isdigit_def numeric_type_of_def
  latin1_numeric_type_def py_def lib_def clip_def closed_def pond_args_def
  while_True.simps iteration_def process_frame_def frame_contours_def int_float_clip_fps int_float_640 int_float_480 Let_def
  quit_key_def int_str_def ascii_only_def startup_def shutdown_def writer_fps_def
  str_nat.simps frame_text_def count_text_def pond_frame0_def pond_frame1_def

lemma main_pond: "main ascii_only lib pond_args = Some (Exit 0, pond_run)"
  by (simp add: run_defs pond_run_def)

lemma main_pond_debug:
  "main ascii_only lib (pond_args\<lparr>debug := True\<rparr>) = Some (Exit 0, pond_debug_run)"
  by (simp add: run_defs pond_debug_run_def)

lemma main_nofile:
  "main ascii_only lib (pond_args\<lparr>video := py ''nofile''\<rparr>) =
     Some (Exit 1, [Open (Filename (py ''nofile'')), Print (msg_error @ py '' nofile'')])"
  by (simp add: run_defs)

section \<open>What the events of the loop hold\<close>

lemma written_append: "written (xs @ ys) = written xs @ written ys"
  by (induction xs rule: written.induct) simp_all

lemma writers_append: "writers (xs @ ys) = writers xs @ writers ys"
  by (induction xs rule: writers.induct) simp_all

lemma key_checks_append: "key_checks (xs @ ys) = key_checks xs @ key_checks ys"
  by (induction xs rule: key_checks.induct) simp_all

lemma written_turn_events:
  "map Some (written (turn_events L cap a k)) =
     (case cap_read cap k of None \<Rightarrow> [] | Some img \<Rightarrow> [expected_frame L cap a k])"
  by (simp add: turn_events_def expected_frame_def split: option.splits prod.splits)

lemma writers_turn_events: "writers (turn_events L cap a k) = []"
  by (simp add: turn_events_def split: option.splits prod.splits)

lemma key_checks_turn_events:
  "key_checks (turn_events L cap a k) =
     (if debug a \<and> cap_read cap k \<noteq> None then [(30, waitKey L k)] else [])"
  by (simp add: turn_events_def split: option.splits prod.splits)

lemma reads_turn_events:
  "count_list (turn_events L cap a k) (Read True) = (if cap_read cap k = None then 0 else 1)"
  by (simp add: turn_events_def split: option.splits prod.splits)

lemma release_turn_events:
  "ReleaseCap \<notin> set (turn_events L cap a k) \<and> ReleaseOut \<notin> set (turn_events L cap a k)"
  by (simp add: turn_events_def split: option.splits prod.splits)

lemma written_loop_events:
  "\<forall>i<k. cap_read cap i \<noteq> None \<Longrightarrow>
   map Some (written (loop_events L cap a k)) = map (expected_frame L cap a) [0..<k]"
  by (induction k) (auto simp: loop_events_Suc written_append written_turn_events loop_events_def)

lemma length_written_loop_events:
  assumes "\<forall>i<k. cap_read cap i \<noteq> None"
  shows "length (written (loop_events L cap a k)) = k"
proof -
  have "length (map Some (written (loop_events L cap a k))) = k"
    by (simp only: written_loop_events [OF assms] length_map length_upt diff_zero)
  then show ?thesis by simp
qed

lemma expected_frame_pixels:
  assumes "expected_frame L cap a k = Some fr"
  shows "cap_read cap k = Some (pixels fr)"
  using assms by (auto simp: expected_frame_def annotated_def split: option.splits)

lemma written_nth:
  assumes "map Some xs = map f [0..<n]"
  shows "length xs = n" and "k < n \<Longrightarrow> f k = Some (xs ! k)"
proof -
  have "length (map Some xs) = length (map f [0..<n])" by (simp only: assms)
  then show l: "length xs = n" by simp
  assume k: "k < n"
  with l have "map Some xs ! k = Some (xs ! k)" by simp
  moreover from k have "map f [0..<n] ! k = f k" by simp
  ultimately show "f k = Some (xs ! k)" by (simp only: assms)
qed

lemma writers_loop_events: "writers (loop_events L cap a k) = []"
  by (induction k) (simp_all add: loop_events_Suc writers_append writers_turn_events loop_events_def)

lemma key_checks_loop_events:
  "\<not> debug a \<Longrightarrow> key_checks (loop_events L cap a k) = []"
  by (induction k)
     (simp_all add: loop_events_Suc key_checks_append key_checks_turn_events loop_events_def)

lemma reads_loop_events:
  "\<forall>i<k. cap_read cap i \<noteq> None \<Longrightarrow> count_list (loop_events L cap a k) (Read True) = k"
  by (induction k) (auto simp: loop_events_Suc reads_turn_events loop_events_def)

lemma release_loop_events:
  "ReleaseCap \<notin> set (loop_events L cap a k) \<and> ReleaseOut \<notin> set (loop_events L cap a k)"
  by (induction k) (simp_all add: loop_events_Suc release_turn_events loop_events_def)

lemma main_opened:
  assumes "select_source ucd a = Inr src" and "isOpened (VideoCapture L src)"
    and "main ucd L a = Some (e, t)"
  shows "\<exists>k. (\<forall>i<k. \<not> ends_at L (VideoCapture L src) a i) \<and> ends_at L (VideoCapture L src) a k \<and>
           e = Exit 0 \<and>
           t = trace (startup L a src (VideoCapture L src)) @
               loop_events L (VideoCapture L src) a (Suc k) @
               [ReleaseCap, ReleaseOut] @ (if debug a then [DestroyAllWindows] else []) @
               [Print (msg_finished @ out a)]"
proof -
  have "\<exists>j. ends_at L (VideoCapture L src) a j"
  proof (rule ccontr)
    assume "\<not> (\<exists>j. ends_at L (VideoCapture L src) a j)"
    then have "main ucd L a = None"
      using main_endless [OF assms(1,2)] by blast
    with assms(3) show False by simp
  qed
  then obtain k where k: "\<forall>i<k. \<not> ends_at L (VideoCapture L src) a i"
      "ends_at L (VideoCapture L src) a k"
    using first_end by blast
  from main_ends [OF assms(1,2) k] assms(3) k show ?thesis by auto
qed

lemma startup_trace:
  "trace (startup L a src cap) =
     [Open src,
      CreateWriter (out a) (py ''mp4v'') (writer_fps cap)
        (int_float (cap_get cap CAP_PROP_FRAME_WIDTH), int_float (cap_get cap CAP_PROP_FRAME_HEIGHT)),
      Print msg_start]"
  by (simp add: startup_def Let_def)

lemma select_pond: "select_source ascii_only pond_args = Inr (Filename (py ''pond.mp4''))"
  by (simp add: select_source_def isdigit_def numeric_type_of_def latin1_numeric_type_def
        py_def pond_args_def)

lemma capture_pond: "VideoCapture lib (Filename (py ''pond.mp4'')) = clip"
  by (simp add: lib_def)

lemma select_nofile:
  "select_source ascii_only (pond_args\<lparr>video := py ''nofile''\<rparr>) = Inr (Filename (py ''nofile''))"
  by (simp add: select_source_def isdigit_def numeric_type_of_def latin1_numeric_type_def
        py_def pond_args_def)

lemma capture_nofile: "VideoCapture lib (Filename (py ''nofile'')) = closed"
  by (simp add: lib_def py_def)

section \<open>Release of the capture and the writer\<close>

text \<open>
  C2, as the claim states it: on every exit path, the early exit included, the capture
  that was created is released. It fails on the early exit: when the source does not
  open, the program creates the capture, prints the error and exits with status 1; no
  \<open>release\<close> is among its events.
\<close>

theorem release_on_open_failure_counterexample:
  "main ascii_only lib (pond_args\<lparr>video := py ''nofile''\<rparr>) =
     Some (Exit 1, [Open (Filename (py ''nofile'')), Print (msg_error @ py '' nofile'')]) \<and>
   ReleaseCap \<notin> set [Open (Filename (py ''nofile'')), Print (msg_error @ py '' nofile'') :: nat event]"
  using main_nofile by simp

text \<open>
  C2, amended: when the source opened, every run that ends has status 0 and ends with
  \<open>cap.release()\<close>, \<open>out.release()\<close>, the closing of the windows under \<open>--debug\<close>, and
  the message; neither release occurs before. When the source did not open, the run is
  the creation of the capture and the error message, with status 1: no writer was
  created and nothing is released.
\<close>

theorem release_after_loop:
  assumes "select_source ucd a = Inr src" and "main ucd L a = Some (e, t)"
  shows "(isOpened (VideoCapture L src) \<longrightarrow>
            e = Exit 0 \<and>
            (\<exists>t'. t = t' @ [ReleaseCap, ReleaseOut] @
                        (if debug a then [DestroyAllWindows] else []) @
                        [Print (msg_finished @ out a)] \<and>
                  ReleaseCap \<notin> set t' \<and> ReleaseOut \<notin> set t')) \<and>
         (\<not> isOpened (VideoCapture L src) \<longrightarrow>
            e = Exit 1 \<and> t = [Open src, Print (msg_error @ py '' '' @ video a)])"
proof (intro conjI impI)
  assume op: "isOpened (VideoCapture L src)"
  from main_opened [OF assms(1) op assms(2)] obtain k where
    k: "e = Exit 0"
       "t = trace (startup L a src (VideoCapture L src)) @
            loop_events L (VideoCapture L src) a (Suc k) @
            [ReleaseCap, ReleaseOut] @ (if debug a then [DestroyAllWindows] else []) @
            [Print (msg_finished @ out a)]"
    by blast
  show "e = Exit 0" by (rule k(1))
  let ?t' = "trace (startup L a src (VideoCapture L src)) @ loop_events L (VideoCapture L src) a (Suc k)"
  have "ReleaseCap \<notin> set ?t'" "ReleaseOut \<notin> set ?t'"
    using release_loop_events [of L "VideoCapture L src" a "Suc k"]
    by (simp_all add: startup_trace)
  with k(2) show "\<exists>t'. t = t' @ [ReleaseCap, ReleaseOut] @
                        (if debug a then [DestroyAllWindows] else []) @
                        [Print (msg_finished @ out a)] \<and>
                  ReleaseCap \<notin> set t' \<and> ReleaseOut \<notin> set t'"
    by (intro exI [of _ ?t']) simp
next
  assume cl: "\<not> isOpened (VideoCapture L src)"
  from main_closed [OF assms(1) cl] assms(2)
  show "e = Exit 1" and "t = [Open src, Print (msg_error @ py '' '' @ video a)]" by simp_all
qed

theorem release_after_loop_witness:
  "select_source ascii_only pond_args = Inr (Filename (py ''pond.mp4'')) \<and>
   main ascii_only lib pond_args = Some (Exit 0, pond_run) \<and>
   isOpened (VideoCapture lib (Filename (py ''pond.mp4''))) \<and>
   (\<exists>t'. pond_run = t' @ [ReleaseCap, ReleaseOut] @ [Print (msg_finished @ out pond_args)] \<and>
         ReleaseCap \<notin> set t' \<and> ReleaseOut \<notin> set t') \<and>
   select_source ascii_only (pond_args\<lparr>video := py ''nofile''\<rparr>) = Inr (Filename (py ''nofile'')) \<and>
   \<not> isOpened (VideoCapture lib (Filename (py ''nofile''))) \<and>
   main ascii_only lib (pond_args\<lparr>video := py ''nofile''\<rparr>) =
     Some (Exit 1, [Open (Filename (py ''nofile'')), Print (msg_error @ py '' nofile'')])"
proof -
  have op: "isOpened (VideoCapture lib (Filename (py ''pond.mp4'')))"
    by (simp add: capture_pond clip_def)
  have cl: "\<not> isOpened (VideoCapture lib (Filename (py ''nofile'')))"
    by (simp add: capture_nofile closed_def)
  have d: "\<not> debug pond_args" by (simp add: pond_args_def)
  from release_after_loop [OF select_pond main_pond] op d
  have "\<exists>t'. pond_run = t' @ [ReleaseCap, ReleaseOut] @ [Print (msg_finished @ out pond_args)] \<and>
         ReleaseCap \<notin> set t' \<and> ReleaseOut \<notin> set t'"
    by simp
  then show ?thesis
    using select_pond main_pond op select_nofile cl main_nofile by blast
qed

section \<open>Exit behaviour\<close>

lemma select_camera:
  "select_source ascii_only (pond_args\<lparr>video := py ''0''\<rparr>) = Inr (Index 0)"
  by (simp add: select_source_def isdigit_def numeric_type_of_def latin1_numeric_type_def
        py_def pond_args_def int_str_def)

lemma capture_camera: "VideoCapture lib (Index 0) = webcam"
  by (simp add: lib_def)

text \<open>
  C3, as the claim states it: when the source opens, the program runs to completion and
  prints the success message. It fails for a source whose reads never fail while no quit
  key is accepted: on the sample camera, without \<open>--debug\<close>, the source opens and
  \<open>main\<close> never returns.
\<close>

theorem runs_to_completion_counterexample:
  "select_source ascii_only (pond_args\<lparr>video := py ''0''\<rparr>) = Inr (Index 0) \<and>
   isOpened (VideoCapture lib (Index 0)) \<and>
   main ascii_only lib (pond_args\<lparr>video := py ''0''\<rparr>) = None"
proof -
  have "\<forall>k. \<not> ends_at lib (VideoCapture lib (Index 0)) (pond_args\<lparr>video := py ''0''\<rparr>) k"
    by (simp add: ends_at_def capture_camera webcam_def pond_args_def)
  moreover have "isOpened (VideoCapture lib (Index 0))"
    by (simp add: capture_camera webcam_def)
  ultimately show ?thesis
    using main_endless [OF select_camera] select_camera by blast
qed

text \<open>
  C3, amended, for a \<open>--video\<close> value that lines 24 to 27 turn into a source. If the
  source cannot be opened, the program prints the error message followed by the value of
  \<open>--video\<close> and exits with status 1; it reads no frame. If it opens and some read
  fails, or under \<open>--debug\<close> some key is q or Q, the program ends with status 0 and its
  last act is to print the success message followed by the output path. If it opens and
  neither ever happens, the program does not end.
\<close>

theorem exit_behaviour:
  assumes "select_source ucd a = Inr src"
  shows "(\<not> isOpened (VideoCapture L src) \<longrightarrow>
            main ucd L a = Some (Exit 1, [Open src, Print (msg_error @ py '' '' @ video a)])) \<and>
         (isOpened (VideoCapture L src) \<longrightarrow>
            (\<exists>k. cap_read (VideoCapture L src) k = None \<or> (debug a \<and> quit_key (waitKey L k))) \<longrightarrow>
            (\<exists>t. main ucd L a = Some (Exit 0, t @ [Print (msg_finished @ out a)]))) \<and>
         (isOpened (VideoCapture L src) \<longrightarrow>
            (\<forall>k. cap_read (VideoCapture L src) k \<noteq> None \<and> \<not> (debug a \<and> quit_key (waitKey L k))) \<longrightarrow>
            main ucd L a = None)"
proof (intro conjI impI)
  assume "\<not> isOpened (VideoCapture L src)"
  then show "main ucd L a = Some (Exit 1, [Open src, Print (msg_error @ py '' '' @ video a)])"
    by (rule main_closed [OF assms])
next
  assume op: "isOpened (VideoCapture L src)"
    and "\<exists>k. cap_read (VideoCapture L src) k = None \<or> (debug a \<and> quit_key (waitKey L k))"
  then have "\<exists>j. ends_at L (VideoCapture L src) a j" by (simp add: ends_at_def)
  then obtain k where k: "\<forall>i<k. \<not> ends_at L (VideoCapture L src) a i"
      "ends_at L (VideoCapture L src) a k"
    using first_end by blast
  show "\<exists>t. main ucd L a = Some (Exit 0, t @ [Print (msg_finished @ out a)])"
    by (rule exI [of _ "trace (startup L a src (VideoCapture L src)) @
            loop_events L (VideoCapture L src) a (Suc k) @
            [ReleaseCap, ReleaseOut] @ (if debug a then [DestroyAllWindows] else [])"])
       (simp add: main_ends [OF assms op k])
next
  assume op: "isOpened (VideoCapture L src)"
    and "\<forall>k. cap_read (VideoCapture L src) k \<noteq> None \<and> \<not> (debug a \<and> quit_key (waitKey L k))"
  then have "\<forall>k. \<not> ends_at L (VideoCapture L src) a k" by (simp add: ends_at_def)
  then show "main ucd L a = None" by (rule main_endless [OF assms op])
qed

theorem exit_behaviour_witness:
  "select_source ascii_only pond_args = Inr (Filename (py ''pond.mp4'')) \<and>
   isOpened (VideoCapture lib (Filename (py ''pond.mp4''))) \<and>
   cap_read (VideoCapture lib (Filename (py ''pond.mp4''))) 2 = None \<and>
   (\<exists>t. main ascii_only lib pond_args = Some (Exit 0, t @ [Print (msg_finished @ out pond_args)])) \<and>
   select_source ascii_only (pond_args\<lparr>video := py ''nofile''\<rparr>) = Inr (Filename (py ''nofile'')) \<and>
   \<not> isOpened (VideoCapture lib (Filename (py ''nofile''))) \<and>
   main ascii_only lib (pond_args\<lparr>video := py ''nofile''\<rparr>) =
     Some (Exit 1, [Open (Filename (py ''nofile'')),
                    Print (msg_error @ py '' '' @ video (pond_args\<lparr>video := py ''nofile''\<rparr>))])"
proof -
  have 1: "isOpened (VideoCapture lib (Filename (py ''pond.mp4'')))"
    and 2: "cap_read (VideoCapture lib (Filename (py ''pond.mp4''))) 2 = None"
    by (simp_all add: capture_pond clip_def)
  have 3: "\<not> isOpened (VideoCapture lib (Filename (py ''nofile'')))"
    by (simp add: capture_nofile closed_def)
  from exit_behaviour [OF select_pond, of lib] 1 2
  have "\<exists>t. main ascii_only lib pond_args = Some (Exit 0, t @ [Print (msg_finished @ out pond_args)])"
    by blast
  moreover from exit_behaviour [OF select_nofile, of lib] 3
  have "main ascii_only lib (pond_args\<lparr>video := py ''nofile''\<rparr>) =
     Some (Exit 1, [Open (Filename (py ''nofile'')),
                    Print (msg_error @ py '' '' @ video (pond_args\<lparr>video := py ''nofile''\<rparr>))])"
    by blast
  ultimately show ?thesis using 1 2 3 select_pond select_nofile by blast
qed

section \<open>A failed read\<close>

text \<open>
  C5. A read that fails ends the loop as the end of the stream does; the program sees
  \<open>ret = False\<close> in both cases. When the reads of the turns before turn \<open>k\<close> succeeded
  and none of them ended the loop, and the read of turn \<open>k\<close> fails, the program ends with
  status 0: after the events of the \<open>k\<close> turns, in which \<open>k\<close> frames were read and
  written, come the failed read, the two releases, the closing of the windows under
  \<open>--debug\<close>, and the success message. No exception is raised.
\<close>

theorem read_failure_ends_normally:
  assumes "select_source ucd a = Inr src" and "isOpened (VideoCapture L src)"
    and "\<forall>i<k. cap_read (VideoCapture L src) i \<noteq> None \<and> \<not> (debug a \<and> quit_key (waitKey L i))"
    and "cap_read (VideoCapture L src) k = None"
  shows "main ucd L a =
           Some (Exit 0,
                 trace (startup L a src (VideoCapture L src)) @
                 loop_events L (VideoCapture L src) a k @
                 [Read False, ReleaseCap, ReleaseOut] @
                 (if debug a then [DestroyAllWindows] else []) @
                 [Print (msg_finished @ out a)]) \<and>
         length (written (loop_events L (VideoCapture L src) a k)) = k \<and>
         count_list (loop_events L (VideoCapture L src) a k) (Read True) = k"
proof -
  from assms(3) have ne: "\<forall>i<k. \<not> ends_at L (VideoCapture L src) a i"
    by (simp add: ends_at_def)
  from assms(4) have e: "ends_at L (VideoCapture L src) a k"
    by (simp add: ends_at_def)
  have "loop_events L (VideoCapture L src) a (Suc k) =
          loop_events L (VideoCapture L src) a k @ [Read False]"
    using assms(4) by (simp add: loop_events_Suc turn_events_def)
  with main_ends [OF assms(1,2) ne e]
  have "main ucd L a =
           Some (Exit 0,
                 trace (startup L a src (VideoCapture L src)) @
                 loop_events L (VideoCapture L src) a k @
                 [Read False, ReleaseCap, ReleaseOut] @
                 (if debug a then [DestroyAllWindows] else []) @
                 [Print (msg_finished @ out a)])"
    by simp
  moreover from assms(3) have "\<forall>i<k. cap_read (VideoCapture L src) i \<noteq> None" by simp
  then have "length (written (loop_events L (VideoCapture L src) a k)) = k"
      "count_list (loop_events L (VideoCapture L src) a k) (Read True) = k"
    by (simp_all add: length_written_loop_events reads_loop_events)
  ultimately show ?thesis by simp
qed

theorem read_failure_ends_normally_witness:
  "select_source ascii_only pond_args = Inr (Filename (py ''pond.mp4'')) \<and>
   isOpened (VideoCapture lib (Filename (py ''pond.mp4''))) \<and>
   cap_read (VideoCapture lib (Filename (py ''pond.mp4''))) 0 \<noteq> None \<and>
   cap_read (VideoCapture lib (Filename (py ''pond.mp4''))) 1 \<noteq> None \<and>
   \<not> debug pond_args \<and>
   cap_read (VideoCapture lib (Filename (py ''pond.mp4''))) 2 = None \<and>
   main ascii_only lib pond_args =
     Some (Exit 0,
           trace (startup lib pond_args (Filename (py ''pond.mp4''))
                    (VideoCapture lib (Filename (py ''pond.mp4'')))) @
           loop_events lib (VideoCapture lib (Filename (py ''pond.mp4''))) pond_args 2 @
           [Read False, ReleaseCap, ReleaseOut] @
           (if debug pond_args then [DestroyAllWindows] else []) @
           [Print (msg_finished @ out pond_args)]) \<and>
   length (written (loop_events lib (VideoCapture lib (Filename (py ''pond.mp4''))) pond_args 2)) = 2"
proof -
  have 1: "isOpened (VideoCapture lib (Filename (py ''pond.mp4'')))"
    and 2: "cap_read (VideoCapture lib (Filename (py ''pond.mp4''))) 2 = None"
    and 3: "\<forall>i<2. cap_read (VideoCapture lib (Filename (py ''pond.mp4''))) i \<noteq> None \<and>
          \<not> (debug pond_args \<and> quit_key (waitKey lib i))"
    and 4: "cap_read (VideoCapture lib (Filename (py ''pond.mp4''))) 0 \<noteq> None"
    and 5: "cap_read (VideoCapture lib (Filename (py ''pond.mp4''))) 1 \<noteq> None"
    and 6: "\<not> debug pond_args"
    by (simp_all add: capture_pond clip_def pond_args_def)
  from read_failure_ends_normally [OF select_pond 1 3 2] 1 2 4 5 6 select_pond
  show ?thesis by blast
qed

section \<open>Frames read and frames written\<close>

lemma written_startup: "written (trace (startup L a src cap)) = []"
  by (simp add: startup_trace)

lemma reads_startup: "count_list (trace (startup L a src cap)) (Read True) = 0"
  by (simp add: startup_trace)

lemma key_checks_startup: "key_checks (trace (startup L a src cap)) = []"
  by (simp add: startup_trace)

lemma writers_startup:
  "writers (trace (startup L a src cap)) =
     [(out a, py ''mp4v'', writer_fps cap,
       int_float (cap_get cap CAP_PROP_FRAME_WIDTH), int_float (cap_get cap CAP_PROP_FRAME_HEIGHT))]"
  by (simp add: startup_trace)

lemma written_shutdown:
  "written ([ReleaseCap, ReleaseOut] @ (if debug a then [DestroyAllWindows] else []) @
            [Print (msg_finished @ out a)]) = []"
  by simp

lemma reads_shutdown:
  "count_list ([ReleaseCap, ReleaseOut] @ (if debug a then [DestroyAllWindows] else []) @
            [Print (msg_finished @ out a)]) (Read True) = 0"
  by simp

lemma writers_shutdown:
  "writers ([ReleaseCap, ReleaseOut] @ (if debug a then [DestroyAllWindows] else []) @
            [Print (msg_finished @ out a)]) = []"
  by simp

lemma key_checks_shutdown:
  "key_checks ([ReleaseCap, ReleaseOut] @ (if debug a then [DestroyAllWindows] else []) @
            [Print (msg_finished @ out a)]) = []"
  by simp

lemma loop_events_first_end:
  assumes "\<forall>i<k. \<not> ends_at L cap a i"
  shows "map Some (written (loop_events L cap a (Suc k))) =
           map (expected_frame L cap a) [0..<(if cap_read cap k = None then k else Suc k)] \<and>
         count_list (loop_events L cap a (Suc k)) (Read True) =
           (if cap_read cap k = None then k else Suc k) \<and>
         (\<forall>i<(if cap_read cap k = None then k else Suc k). cap_read cap i \<noteq> None)"
proof -
  from assms have ne: "\<forall>i<k. cap_read cap i \<noteq> None" by (simp add: ends_at_def)
  show ?thesis
  proof (cases "cap_read cap k")
    case None
    then have "loop_events L cap a (Suc k) = loop_events L cap a k @ [Read False]"
      by (simp add: loop_events_Suc turn_events_def)
    with None ne show ?thesis
      by (simp add: written_append written_loop_events reads_loop_events)
  next
    case (Some img)
    with ne have "\<forall>i<Suc k. cap_read cap i \<noteq> None" by (simp add: less_Suc_eq)
    with Some show ?thesis
      using written_loop_events [of "Suc k" cap L a] reads_loop_events [of "Suc k" cap L a]
      by simp
  qed
qed

lemma main_opened_frames:
  assumes "select_source ucd a = Inr src" and "isOpened (VideoCapture L src)"
    and "main ucd L a = Some (e, t)"
  shows "\<exists>n. map Some (written t) = map (expected_frame L (VideoCapture L src) a) [0..<n] \<and>
             count_list t (Read True) = n \<and>
             (\<forall>i<n. cap_read (VideoCapture L src) i \<noteq> None) \<and>
             writers t =
               [(out a, py ''mp4v'', writer_fps (VideoCapture L src),
                 int_float (cap_get (VideoCapture L src) CAP_PROP_FRAME_WIDTH),
                 int_float (cap_get (VideoCapture L src) CAP_PROP_FRAME_HEIGHT))] \<and>
             (\<not> debug a \<longrightarrow> key_checks t = [])"
proof -
  let ?cap = "VideoCapture L src"
  let ?end = "[ReleaseCap, ReleaseOut] @ (if debug a then [DestroyAllWindows] else []) @
               [Print (msg_finished @ out a)]"
  from main_opened [OF assms] obtain k where
    k: "\<forall>i<k. \<not> ends_at L ?cap a i"
    and t: "t = trace (startup L a src ?cap) @ loop_events L ?cap a (Suc k) @ ?end"
    by blast
  from loop_events_first_end [OF k] obtain n where
    n: "map Some (written (loop_events L ?cap a (Suc k))) = map (expected_frame L ?cap a) [0..<n]"
       "count_list (loop_events L ?cap a (Suc k)) (Read True) = n"
       "\<forall>i<n. cap_read ?cap i \<noteq> None"
    by blast
  have "map Some (written t) = map (expected_frame L ?cap a) [0..<n]"
    unfolding t written_append written_startup written_shutdown using n(1) by simp
  moreover have "count_list t (Read True) = n"
    unfolding t count_list_append reads_startup reads_shutdown n(2) by simp
  moreover have "writers t =
               [(out a, py ''mp4v'', writer_fps ?cap,
                 int_float (cap_get ?cap CAP_PROP_FRAME_WIDTH),
                 int_float (cap_get ?cap CAP_PROP_FRAME_HEIGHT))]"
    unfolding t writers_append writers_startup writers_shutdown writers_loop_events by simp
  moreover have "key_checks t = []" if "\<not> debug a"
    unfolding t key_checks_append key_checks_startup key_checks_shutdown
      key_checks_loop_events [OF that] by simp
  ultimately show ?thesis using n(3) by blast
qed

lemma main_not_opened:
  assumes "main ucd L a = Some (e, t)"
    and "\<not> (\<exists>src. select_source ucd a = Inr src \<and> isOpened (VideoCapture L src))"
  shows "written t = [] \<and> count_list t (Read True) = 0 \<and> writers t = [] \<and> key_checks t = []"
proof (cases "select_source ucd a")
  case (Inl er)
  with assms(1) show ?thesis by (simp add: main_raises)
next
  case (Inr src)
  with assms(2) have "\<not> isOpened (VideoCapture L src)" by simp
  from main_closed [OF Inr this] assms(1) show ?thesis by auto
qed

text \<open>
  C6. In every run that ends, the number of frames handed to \<open>out.write\<close> is the number
  of reads that succeeded. When the source opened, one writer is created, with the
  capture's width and height cut to integers, and the frames written are the frames read,
  in order, each annotated; when the loop is left by the key press of turn \<open>k\<close> under
  \<open>--debug\<close>, the frame of that turn has been written too, \<open>k + 1\<close> frames in all.
\<close>

theorem one_write_per_frame_read:
  assumes "main ucd L a = Some (e, t)"
  shows "length (written t) = count_list t (Read True) \<and>
         (\<forall>src. select_source ucd a = Inr src \<longrightarrow> isOpened (VideoCapture L src) \<longrightarrow>
            writers t =
              [(out a, py ''mp4v'', writer_fps (VideoCapture L src),
                int_float (cap_get (VideoCapture L src) CAP_PROP_FRAME_WIDTH),
                int_float (cap_get (VideoCapture L src) CAP_PROP_FRAME_HEIGHT))] \<and>
            map (\<lambda>fr. Some (pixels fr)) (written t) =
              map (cap_read (VideoCapture L src)) [0..<length (written t)] \<and>
            (\<forall>k. (\<forall>i<k. cap_read (VideoCapture L src) i \<noteq> None \<and>
                         \<not> (debug a \<and> quit_key (waitKey L i))) \<longrightarrow>
                 cap_read (VideoCapture L src) k \<noteq> None \<longrightarrow>
                 debug a \<longrightarrow> quit_key (waitKey L k) \<longrightarrow>
                 length (written t) = Suc k))"
proof (cases "\<exists>src. select_source ucd a = Inr src \<and> isOpened (VideoCapture L src)")
  case False
  with main_not_opened [OF assms] show ?thesis by auto
next
  case True
  then obtain src where src: "select_source ucd a = Inr src" "isOpened (VideoCapture L src)"
    by blast
  let ?cap = "VideoCapture L src"
  let ?end = "[ReleaseCap, ReleaseOut] @ (if debug a then [DestroyAllWindows] else []) @
               [Print (msg_finished @ out a)]"
  from main_opened_frames [OF src assms] obtain n where
    n: "map Some (written t) = map (expected_frame L ?cap a) [0..<n]"
       "count_list t (Read True) = n"
       "writers t = [(out a, py ''mp4v'', writer_fps ?cap,
                 int_float (cap_get ?cap CAP_PROP_FRAME_WIDTH),
                 int_float (cap_get ?cap CAP_PROP_FRAME_HEIGHT))]"
    by blast
  note len = written_nth(1) [OF n(1)]
  have px: "map (\<lambda>fr. Some (pixels fr)) (written t) = map (cap_read ?cap) [0..<length (written t)]"
  proof (rule nth_equalityI)
    show "length (map (\<lambda>fr. Some (pixels fr)) (written t)) =
          length (map (cap_read ?cap) [0..<length (written t)])"
      by simp
  next
    fix k
    assume "k < length (map (\<lambda>fr. Some (pixels fr)) (written t))"
    then have k: "k < n" by (simp add: len)
    from written_nth(2) [OF n(1) k]
    have "expected_frame L ?cap a k = Some (written t ! k)" .
    then have "cap_read ?cap k = Some (pixels (written t ! k))"
      by (rule expected_frame_pixels)
    with k show "map (\<lambda>fr. Some (pixels fr)) (written t) ! k =
                 map (cap_read ?cap) [0..<length (written t)] ! k"
      by (simp add: len)
  qed
  have key: "length (written t) = Suc k"
    if "\<forall>i<k. cap_read ?cap i \<noteq> None \<and> \<not> (debug a \<and> quit_key (waitKey L i))"
      and "cap_read ?cap k \<noteq> None" and "debug a" and "quit_key (waitKey L k)" for k
  proof -
    from that have ne: "\<forall>i<k. \<not> ends_at L ?cap a i" and e: "ends_at L ?cap a k"
      by (simp_all add: ends_at_def)
    from main_ends [OF src ne e] assms
    have t: "t = trace (startup L a src ?cap) @ loop_events L ?cap a (Suc k) @ ?end"
      by simp
    from loop_events_first_end [OF ne] that(2)
    have "map Some (written (loop_events L ?cap a (Suc k))) =
            map (expected_frame L ?cap a) [0..<Suc k]"
      by simp
    from written_nth(1) [OF this]
    have "length (written (loop_events L ?cap a (Suc k))) = Suc k" .
    then show ?thesis
      unfolding t written_append written_startup written_shutdown by simp
  qed
  have 1: "length (written t) = count_list t (Read True)" by (simp add: len n(2))
  have 2: "writers t =
              [(out a, py ''mp4v'', writer_fps (VideoCapture L src'),
                int_float (cap_get (VideoCapture L src') CAP_PROP_FRAME_WIDTH),
                int_float (cap_get (VideoCapture L src') CAP_PROP_FRAME_HEIGHT))] \<and>
            map (\<lambda>fr. Some (pixels fr)) (written t) =
              map (cap_read (VideoCapture L src')) [0..<length (written t)] \<and>
            (\<forall>k. (\<forall>i<k. cap_read (VideoCapture L src') i \<noteq> None \<and>
                         \<not> (debug a \<and> quit_key (waitKey L i))) \<longrightarrow>
                 cap_read (VideoCapture L src') k \<noteq> None \<longrightarrow>
                 debug a \<longrightarrow> quit_key (waitKey L k) \<longrightarrow>
                 length (written t) = Suc k)"
    if "select_source ucd a = Inr src'" for src'
  proof -
    from that src(1) have "src' = src" by simp
    with n(3) px key show ?thesis by blast
  qed
  from 1 2 show ?thesis by blast
qed

lemma select_pond_debug:
  "select_source ascii_only (pond_args\<lparr>debug := True\<rparr>) = Inr (Filename (py ''pond.mp4''))"
  by (simp add: select_source_def isdigit_def numeric_type_of_def latin1_numeric_type_def
        py_def pond_args_def)

text \<open>
  The clip with the preview on: the first key is no key, the second is \<open>q\<close>, and both
  frames have been written when the loop is left.
\<close>

theorem one_write_per_frame_read_witness:
  "main ascii_only lib (pond_args\<lparr>debug := True\<rparr>) = Some (Exit 0, pond_debug_run) \<and>
   length (written pond_debug_run) = count_list pond_debug_run (Read True) \<and>
   written pond_debug_run = [pond_frame0, pond_frame1] \<and>
   select_source ascii_only (pond_args\<lparr>debug := True\<rparr>) = Inr (Filename (py ''pond.mp4'')) \<and>
   isOpened (VideoCapture lib (Filename (py ''pond.mp4''))) \<and>
   writers pond_debug_run = [(py ''fish_tracked.mp4'', py ''mp4v'', 29, 640, 480)] \<and>
   cap_read (VideoCapture lib (Filename (py ''pond.mp4''))) 0 \<noteq> None \<and>
   \<not> quit_key (waitKey lib 0) \<and>
   cap_read (VideoCapture lib (Filename (py ''pond.mp4''))) 1 \<noteq> None \<and>
   debug (pond_args\<lparr>debug := True\<rparr>) \<and> quit_key (waitKey lib 1) \<and>
   length (written pond_debug_run) = Suc 1"
proof -
  have op: "isOpened (VideoCapture lib (Filename (py ''pond.mp4'')))"
    and r0: "cap_read (VideoCapture lib (Filename (py ''pond.mp4''))) 0 \<noteq> None"
    and r1: "cap_read (VideoCapture lib (Filename (py ''pond.mp4''))) 1 \<noteq> None"
    by (simp_all add: capture_pond clip_def)
  have k0: "\<not> quit_key (waitKey lib 0)" and k1: "quit_key (waitKey lib 1)"
    by (simp_all add: quit_key_def lib_def)
  have d: "debug (pond_args\<lparr>debug := True\<rparr>)" by simp
  have before: "\<forall>i<1. cap_read (VideoCapture lib (Filename (py ''pond.mp4''))) i \<noteq> None \<and>
          \<not> (debug (pond_args\<lparr>debug := True\<rparr>) \<and> quit_key (waitKey lib i))"
    using r0 k0 by simp
  have w: "written pond_debug_run = [pond_frame0, pond_frame1]"
    and ws: "writers pond_debug_run = [(py ''fish_tracked.mp4'', py ''mp4v'', 29, 640, 480)]"
    by (simp_all add: pond_debug_run_def)
  note inst = one_write_per_frame_read [OF main_pond_debug]
  from inst have "length (written pond_debug_run) = count_list pond_debug_run (Read True)"
    by blast
  moreover from inst select_pond_debug op before r1 d k1
  have "length (written pond_debug_run) = Suc 1" by blast
  ultimately show ?thesis
    using main_pond_debug select_pond_debug op r0 r1 k0 k1 d w ws by blast
qed

section \<open>The key-press check\<close>

lemma iteration_Break_no_debug:
  assumes "\<not> debug a" and "iteration L cap a s = Break s'"
  shows "cap_read cap (reads s) = None"
proof (rule ccontr)
  assume "cap_read cap (reads s) \<noteq> None"
  then obtain img where "cap_read cap (reads s) = Some img" by blast
  from iteration_Some [OF this, of L a] assms show False
    by (simp add: Let_def split: prod.splits)
qed

text \<open>
  C9. Without \<open>--debug\<close>: a turn of the loop ends it only when its read failed; no run
  that ends holds a call of \<open>cv2.waitKey\<close>; a run on an opened source that ends has the
  failed read as the last event of the loop, followed by the releases and the message;
  and such a run ends exactly when some read fails.
\<close>

theorem key_check_needs_debug:
  assumes "\<not> debug a"
  shows "(iteration L cap a s = Break s' \<longrightarrow> cap_read cap (reads s) = None) \<and>
         (main ucd L a = Some (e, t) \<longrightarrow> key_checks t = []) \<and>
         (select_source ucd a = Inr src \<longrightarrow> isOpened (VideoCapture L src) \<longrightarrow>
            (main ucd L a = Some (e, t) \<longrightarrow>
               (\<exists>t'. t = t' @ [Read False, ReleaseCap, ReleaseOut, Print (msg_finished @ out a)])) \<and>
            (main ucd L a \<noteq> None) = (\<exists>k. cap_read (VideoCapture L src) k = None))"
proof (intro conjI impI)
  assume "iteration L cap a s = Break s'"
  with assms show "cap_read cap (reads s) = None" by (rule iteration_Break_no_debug)
next
  assume m: "main ucd L a = Some (e, t)"
  show "key_checks t = []"
  proof (cases "\<exists>src. select_source ucd a = Inr src \<and> isOpened (VideoCapture L src)")
    case True
    then obtain src' where "select_source ucd a = Inr src'" "isOpened (VideoCapture L src')"
      by blast
    from main_opened_frames [OF this m] assms show ?thesis by blast
  next
    case False
    from main_not_opened [OF m False] show ?thesis by simp
  qed
next
  assume src: "select_source ucd a = Inr src" "isOpened (VideoCapture L src)"
    and m: "main ucd L a = Some (e, t)"
  let ?cap = "VideoCapture L src"
  from main_opened [OF src m] obtain k where
    e: "ends_at L ?cap a k"
    and t: "t = trace (startup L a src ?cap) @ loop_events L ?cap a (Suc k) @
               [ReleaseCap, ReleaseOut] @ (if debug a then [DestroyAllWindows] else []) @
               [Print (msg_finished @ out a)]"
    by blast
  from e assms have "cap_read ?cap k = None" by (simp add: ends_at_def)
  then have "loop_events L ?cap a (Suc k) = loop_events L ?cap a k @ [Read False]"
    by (simp add: loop_events_Suc turn_events_def)
  with t assms
  have "t = (trace (startup L a src ?cap) @ loop_events L ?cap a k) @
              [Read False, ReleaseCap, ReleaseOut, Print (msg_finished @ out a)]"
    by simp
  then show "\<exists>t'. t = t' @ [Read False, ReleaseCap, ReleaseOut, Print (msg_finished @ out a)]"
    by (rule exI)
next
  assume src: "select_source ucd a = Inr src" "isOpened (VideoCapture L src)"
  let ?cap = "VideoCapture L src"
  show "(main ucd L a \<noteq> None) = (\<exists>k. cap_read ?cap k = None)"
  proof
    assume "main ucd L a \<noteq> None"
    then obtain e' t' where "main ucd L a = Some (e', t')" by (cases "main ucd L a") auto
    from main_opened [OF src this] obtain k where "ends_at L ?cap a k" by blast
    with assms show "\<exists>k. cap_read ?cap k = None" by (auto simp: ends_at_def)
  next
    assume "\<exists>k. cap_read ?cap k = None"
    then have "\<exists>j. ends_at L ?cap a j" by (auto simp: ends_at_def)
    then obtain k where "\<forall>i<k. \<not> ends_at L ?cap a i" "ends_at L ?cap a k"
      using first_end by blast
    from main_ends [OF src this] show "main ucd L a \<noteq> None" by simp
  qed
qed

theorem key_check_needs_debug_witness:
  "\<not> debug pond_args \<and> main ascii_only lib pond_args = Some (Exit 0, pond_run) \<and>
   key_checks pond_run = [] \<and>
   select_source ascii_only pond_args = Inr (Filename (py ''pond.mp4'')) \<and>
   isOpened (VideoCapture lib (Filename (py ''pond.mp4''))) \<and>
   (\<exists>t'. pond_run = t' @ [Read False, ReleaseCap, ReleaseOut, Print (msg_finished @ out pond_args)]) \<and>
   (\<exists>k. cap_read (VideoCapture lib (Filename (py ''pond.mp4''))) k = None) \<and>
   (\<exists>s'. iteration lib clip pond_args
           (startup lib pond_args (Filename (py ''pond.mp4'')) clip\<lparr>reads := 2\<rparr>) = Break s') \<and>
   cap_read clip (reads (startup lib pond_args (Filename (py ''pond.mp4'')) clip\<lparr>reads := 2\<rparr>)) = None"
proof -
  let ?s = "startup lib pond_args (Filename (py ''pond.mp4'')) clip\<lparr>reads := 2\<rparr>"
  have d: "\<not> debug pond_args" by (simp add: pond_args_def)
  have op: "isOpened (VideoCapture lib (Filename (py ''pond.mp4'')))"
    by (simp add: capture_pond clip_def)
  have "cap_read clip (reads ?s) = None" by (simp add: clip_def)
  from iteration_None [OF this, of lib pond_args]
  obtain s' where br: "iteration lib clip pond_args ?s = Break s'" by blast
  note inst = key_check_needs_debug [OF d, where L = lib and cap = clip and s = ?s
      and s' = s' and ucd = ascii_only and e = "Exit 0" and t = pond_run
      and src = "Filename (py ''pond.mp4'')"]
  from inst br have 1: "cap_read clip (reads ?s) = None" by blast
  from inst main_pond have 2: "key_checks pond_run = []" by blast
  from inst main_pond select_pond op
  have 3: "\<exists>t'. pond_run = t' @ [Read False, ReleaseCap, ReleaseOut, Print (msg_finished @ out pond_args)]"
    by blast
  from inst main_pond select_pond op
  have 4: "\<exists>k. cap_read (VideoCapture lib (Filename (py ''pond.mp4''))) k = None"
    by simp
  from d main_pond select_pond op br 1 2 3 4 show ?thesis by blast
qed

section \<open>The frame rate of the writer\<close>

lemma int_float_zero_iff: "(int_float r = 0) = (- 1 < r \<and> r < 1)"
proof (cases "0 \<le> r")
  case True
  then show ?thesis by (auto simp: int_float_def floor_eq_iff)
next
  case False
  then show ?thesis by (auto simp: int_float_def ceiling_eq_iff)
qed

text \<open>
  C10. The frame rate given to the writer is 30 when the rate that the capture reports
  truncates to 0, that is, lies strictly between -1 and 1, and is the reported rate
  truncated towards zero otherwise. It is the rate of the one writer that the lines
  before the loop create, and of the one writer in every run that ends.
\<close>

theorem writer_frame_rate:
  "writer_fps cap =
     (if - 1 < cap_get cap CAP_PROP_FPS \<and> cap_get cap CAP_PROP_FPS < 1 then 30
      else int_float (cap_get cap CAP_PROP_FPS)) \<and>
   writers (trace (startup L a src cap)) =
     [(out a, py ''mp4v'', writer_fps cap,
       int_float (cap_get cap CAP_PROP_FRAME_WIDTH), int_float (cap_get cap CAP_PROP_FRAME_HEIGHT))] \<and>
   (select_source ucd a = Inr src \<longrightarrow> isOpened (VideoCapture L src) \<longrightarrow>
    main ucd L a = Some (e, t) \<longrightarrow>
    map (\<lambda>w. fst (snd (snd w))) (writers t) = [writer_fps (VideoCapture L src)])"
proof (intro conjI impI)
  show "writer_fps cap =
     (if - 1 < cap_get cap CAP_PROP_FPS \<and> cap_get cap CAP_PROP_FPS < 1 then 30
      else int_float (cap_get cap CAP_PROP_FPS))"
    using int_float_zero_iff [of "cap_get cap CAP_PROP_FPS"]
    by (simp add: writer_fps_def Let_def)
next
  show "writers (trace (startup L a src cap)) =
     [(out a, py ''mp4v'', writer_fps cap,
       int_float (cap_get cap CAP_PROP_FRAME_WIDTH), int_float (cap_get cap CAP_PROP_FRAME_HEIGHT))]"
    by (rule writers_startup)
next
  assume "select_source ucd a = Inr src" "isOpened (VideoCapture L src)" "main ucd L a = Some (e, t)"
  from main_opened_frames [OF this]
  show "map (\<lambda>w. fst (snd (snd w))) (writers t) = [writer_fps (VideoCapture L src)]"
    by auto
qed

theorem writer_frame_rate_witness:
  "writer_fps webcam = 30 \<and> writer_fps clip = 29 \<and>
   select_source ascii_only pond_args = Inr (Filename (py ''pond.mp4'')) \<and>
   isOpened (VideoCapture lib (Filename (py ''pond.mp4''))) \<and>
   main ascii_only lib pond_args = Some (Exit 0, pond_run) \<and>
   map (\<lambda>w. fst (snd (snd w))) (writers pond_run) = [29]"
proof -
  have op: "isOpened (VideoCapture lib (Filename (py ''pond.mp4'')))"
    by (simp add: capture_pond clip_def)
  have 1: "writer_fps webcam = 30"
    using writer_frame_rate [of webcam, THEN conjunct1] by (simp add: webcam_def)
  have 2: "writer_fps clip = 29"
    using writer_frame_rate [of clip, THEN conjunct1] by (simp add: clip_def int_float_clip_fps)
  from writer_frame_rate [of clip lib pond_args "Filename (py ''pond.mp4'')" ascii_only
      "Exit 0" pond_run] select_pond op main_pond
  have "map (\<lambda>w. fst (snd (snd w))) (writers pond_run) = [writer_fps clip]"
    by (simp add: capture_pond)
  with 1 2 op select_pond main_pond show ?thesis by simp
qed

section \<open>The frame index\<close>

lemma expected_frame_texts:
  assumes "expected_frame L cap a k = Some fr"
  shows "last (butlast (drawn fr)) = frame_text (Suc k)"
    and "\<exists>img. cap_read cap k = Some img \<and>
           last (drawn fr) =
             count_text (length (fish L (min_area a) (fst (frame_contours L (bs_before L cap k) img))))"
  using assms
  by (auto simp: expected_frame_def annotated_def butlast_append split: option.splits)

lemma iteration_frame_num:
  assumes "iteration L cap a s = Break s' \<or> iteration L cap a s = Continue s'"
  shows "frame_num s' = (if cap_read cap (reads s) = None then frame_num s else frame_num s + 1)"
proof (cases "cap_read cap (reads s)")
  case None
  from iteration_None [OF None, of L a] assms None show ?thesis by auto
next
  case (Some img)
  from iteration_Some [OF Some, of L a] assms Some show ?thesis
    by (auto simp: Let_def split: prod.splits if_splits)
qed

lemma iteration_fish_count:
  assumes "cap_read cap (reads s) \<noteq> None"
  shows "iteration L cap a (s\<lparr>fish_count := n\<rparr>) = iteration L cap a s"
proof -
  from assms obtain img where img: "cap_read cap (reads s) = Some img" by blast
  then have "cap_read cap (reads (s\<lparr>fish_count := n\<rparr>)) = Some img" by simp
  from iteration_Some [OF this, of L a] iteration_Some [OF img, of L a]
  show ?thesis by (simp add: Let_def split: prod.splits)
qed

text \<open>
  C7. The frame index is 0 when the loop starts. A turn of the loop whose read succeeds
  adds exactly one to it, a turn whose read fails leaves it as it is, so it grows strictly
  from one frame to the next. The index drawn on frame number \<open>k\<close> of the output, counted
  from 1, is \<open>k\<close>: the index is raised before the frame is processed. The fish count left
  by the frame before has no influence on a turn that reads a frame; mask, contours and
  boxes are local to the turn and are not part of the state at all.
\<close>

theorem frame_index_counts_frames_read:
  "frame_num (startup L a src cap) = 0 \<and>
   (iteration L cap a s = Break s' \<or> iteration L cap a s = Continue s' \<longrightarrow>
      frame_num s' = (if cap_read cap (reads s) = None then frame_num s else frame_num s + 1)) \<and>
   (cap_read cap (reads s) \<noteq> None \<longrightarrow>
      iteration L cap a (s\<lparr>fish_count := n\<rparr>) = iteration L cap a s) \<and>
   (select_source ucd a = Inr src \<longrightarrow> isOpened (VideoCapture L src) \<longrightarrow>
    main ucd L a = Some (e, t) \<longrightarrow>
      map (\<lambda>fr. last (butlast (drawn fr))) (written t) =
        map frame_text [1..<Suc (length (written t))])"
proof (intro conjI impI)
  show "frame_num (startup L a src cap) = 0" by (simp add: startup_def Let_def)
next
  assume "iteration L cap a s = Break s' \<or> iteration L cap a s = Continue s'"
  then show "frame_num s' = (if cap_read cap (reads s) = None then frame_num s else frame_num s + 1)"
    by (rule iteration_frame_num)
next
  assume "cap_read cap (reads s) \<noteq> None"
  then show "iteration L cap a (s\<lparr>fish_count := n\<rparr>) = iteration L cap a s"
    by (rule iteration_fish_count)
next
  assume "select_source ucd a = Inr src" "isOpened (VideoCapture L src)" "main ucd L a = Some (e, t)"
  from main_opened_frames [OF this] obtain m where
    m: "map Some (written t) = map (expected_frame L (VideoCapture L src) a) [0..<m]"
    by blast
  note len = written_nth(1) [OF m]
  have "map (\<lambda>fr. last (butlast (drawn fr))) (written t) = map (\<lambda>k. frame_text (Suc k)) [0..<m]"
  proof (rule nth_equalityI)
    show "length (map (\<lambda>fr. last (butlast (drawn fr))) (written t)) =
          length (map (\<lambda>k. frame_text (Suc k)) [0..<m])"
      by (simp add: len)
  next
    fix k
    assume "k < length (map (\<lambda>fr. last (butlast (drawn fr))) (written t))"
    then have k: "k < m" by (simp add: len)
    from written_nth(2) [OF m k]
    have "expected_frame L (VideoCapture L src) a k = Some (written t ! k)" .
    from expected_frame_texts(1) [OF this]
    have "last (butlast (drawn (written t ! k))) = frame_text (Suc k)" .
    with k show "map (\<lambda>fr. last (butlast (drawn fr))) (written t) ! k =
                 map (\<lambda>k. frame_text (Suc k)) [0..<m] ! k"
      by (simp add: len)
  qed
  also have "\<dots> = map frame_text (map Suc [0..<m])" by simp
  also have "map Suc [0..<m] = [1..<Suc m]" by (simp add: map_Suc_upt)
  finally show "map (\<lambda>fr. last (butlast (drawn fr))) (written t) =
        map frame_text [1..<Suc (length (written t))]"
    by (simp only: len)
qed

theorem frame_index_counts_frames_read_witness:
  "frame_num (startup lib pond_args (Filename (py ''pond.mp4'')) clip) = 0 \<and>
   cap_read clip (reads (startup lib pond_args (Filename (py ''pond.mp4'')) clip)) \<noteq> None \<and>
   (\<exists>s'. iteration lib clip pond_args (startup lib pond_args (Filename (py ''pond.mp4'')) clip) =
            Continue s' \<and> frame_num s' = 1) \<and>
   iteration lib clip pond_args
     (startup lib pond_args (Filename (py ''pond.mp4'')) clip\<lparr>fish_count := 7\<rparr>) =
   iteration lib clip pond_args (startup lib pond_args (Filename (py ''pond.mp4'')) clip) \<and>
   select_source ascii_only pond_args = Inr (Filename (py ''pond.mp4'')) \<and>
   isOpened (VideoCapture lib (Filename (py ''pond.mp4''))) \<and>
   main ascii_only lib pond_args = Some (Exit 0, pond_run) \<and>
   map (\<lambda>fr. last (butlast (drawn fr))) (written pond_run) = [frame_text 1, frame_text 2]"
proof -
  let ?src = "Filename (py ''pond.mp4'')"
  let ?s = "startup lib pond_args ?src clip"
  have op: "isOpened (VideoCapture lib ?src)"
    by (simp add: capture_pond clip_def)
  have w: "written pond_run = [pond_frame0, pond_frame1]" by (simp add: pond_run_def)
  have r: "cap_read clip (reads ?s) \<noteq> None" by (simp add: startup_def Let_def clip_def)
  have "\<not> ends_at lib clip pond_args 0" by (simp add: ends_at_def clip_def pond_args_def)
  from at_turn_Continue [OF at_turn_startup this]
  obtain s' where c: "iteration lib clip pond_args ?s = Continue s'" by blast
  note inst = frame_index_counts_frames_read [where L = lib and a = pond_args and src = ?src
      and cap = clip and s = ?s and s' = s' and n = 7 and ucd = ascii_only and e = "Exit 0"
      and t = pond_run]
  from inst have 0: "frame_num ?s = 0" by blast
  from inst c r 0 have 1: "frame_num s' = 1" by simp
  from inst r have 2: "iteration lib clip pond_args (?s\<lparr>fish_count := 7\<rparr>) =
      iteration lib clip pond_args ?s"
    by blast
  from inst select_pond op main_pond
  have "map (\<lambda>fr. last (butlast (drawn fr))) (written pond_run) =
        map frame_text [1..<Suc (length (written pond_run))]"
    by (simp add: capture_pond)
  also have "[1..<Suc (length (written pond_run))] = [1, 2]" by (simp add: w upt_rec)
  finally have 3: "map (\<lambda>fr. last (butlast (drawn fr))) (written pond_run) =
      [frame_text 1, frame_text 2]"
    by simp
  from 0 r c 1 2 3 op select_pond main_pond show ?thesis by blast
qed

section \<open>The fish count of a frame\<close>

lemma process_frame_fish_count:
  "process_frame L a img (s\<lparr>fish_count := n\<rparr>) = process_frame L a img s"
  by (simp add: process_frame_eq split: prod.splits)

text \<open>
  C4. The fish count is local to the frame. Whatever count the frame before left, the
  processing of a frame gives the same result: the count is set to 0 before the contours
  are looked at. After the frame it is the number of contours of this frame whose area is
  at or above the cutoff, and this number is the last text drawn on the frame. In a run
  that ends, the count drawn on each frame written is the number of such contours among
  the contours found for that frame.
\<close>

theorem fish_count_is_frame_local:
  "process_frame L a img (s\<lparr>fish_count := n\<rparr>) = process_frame L a img s \<and>
   (frame_contours L (backSub s) img = (cnts, fgMask, bs') \<longrightarrow>
    process_frame L a img s = (m, fr, s') \<longrightarrow>
      fish_count s' = length (filter (\<lambda>c. of_int (min_area a) \<le> contourArea L c) cnts) \<and>
      last (drawn fr) = count_text (fish_count s')) \<and>
   (select_source ucd a = Inr src \<longrightarrow> isOpened (VideoCapture L src) \<longrightarrow>
    main ucd L a = Some (e, t) \<longrightarrow>
      (\<forall>k<length (written t).
         \<exists>img. cap_read (VideoCapture L src) k = Some img \<and>
           last (drawn (written t ! k)) =
             count_text (length (filter (\<lambda>c. of_int (min_area a) \<le> contourArea L c)
               (fst (frame_contours L (bs_before L (VideoCapture L src) k) img))))))"
proof (intro conjI impI allI)
  show "process_frame L a img (s\<lparr>fish_count := n\<rparr>) = process_frame L a img s"
    by (rule process_frame_fish_count)
next
  assume fc: "frame_contours L (backSub s) img = (cnts, fgMask, bs')"
    and pf: "process_frame L a img s = (m, fr, s')"
  from pf fc show "fish_count s' = length (filter (\<lambda>c. of_int (min_area a) \<le> contourArea L c) cnts)"
    by (auto simp: process_frame_eq fish_def)
  from pf fc show "last (drawn fr) = count_text (fish_count s')"
    by (auto simp: process_frame_eq annotated_def)
next
  fix k
  assume src: "select_source ucd a = Inr src" "isOpened (VideoCapture L src)"
    "main ucd L a = Some (e, t)" and k: "k < length (written t)"
  from main_opened_frames [OF src] obtain m where
    m: "map Some (written t) = map (expected_frame L (VideoCapture L src) a) [0..<m]"
    by blast
  from k have km: "k < m" by (simp add: written_nth(1) [OF m])
  from written_nth(2) [OF m km]
  have "expected_frame L (VideoCapture L src) a k = Some (written t ! k)" .
  from expected_frame_texts(2) [OF this]
  show "\<exists>img. cap_read (VideoCapture L src) k = Some img \<and>
           last (drawn (written t ! k)) =
             count_text (length (filter (\<lambda>c. of_int (min_area a) \<le> contourArea L c)
               (fst (frame_contours L (bs_before L (VideoCapture L src) k) img))))"
    by (simp add: fish_def)
qed

theorem fish_count_is_frame_local_witness:
  "process_frame lib pond_args 0
     (startup lib pond_args (Filename (py ''pond.mp4'')) clip\<lparr>fish_count := 7\<rparr>) =
   process_frame lib pond_args 0 (startup lib pond_args (Filename (py ''pond.mp4'')) clip) \<and>
   fish_count (snd (snd (process_frame lib pond_args 0
     (startup lib pond_args (Filename (py ''pond.mp4'')) clip)))) = 1 \<and>
   last (drawn (fst (snd (process_frame lib pond_args 0
     (startup lib pond_args (Filename (py ''pond.mp4'')) clip))))) = count_text 1 \<and>
   select_source ascii_only pond_args = Inr (Filename (py ''pond.mp4'')) \<and>
   isOpened (VideoCapture lib (Filename (py ''pond.mp4''))) \<and>
   main ascii_only lib pond_args = Some (Exit 0, pond_run) \<and>
   (1::nat) < length (written pond_run) \<and>
   (\<exists>img. cap_read (VideoCapture lib (Filename (py ''pond.mp4''))) 1 = Some img \<and>
      last (drawn (written pond_run ! 1)) =
        count_text (length (filter (\<lambda>c. of_int (min_area pond_args) \<le> contourArea lib c)
          (fst (frame_contours lib
             (bs_before lib (VideoCapture lib (Filename (py ''pond.mp4''))) 1) img))))) \<and>
   last (drawn (written pond_run ! 1)) = count_text 2"
proof -
  let ?src = "Filename (py ''pond.mp4'')"
  let ?s = "startup lib pond_args ?src clip"
  let ?cnts = "[(799, 5, 6, 40, 20), (800, 100, 50, 40, 20)] :: (rat \<times> int \<times> int \<times> int \<times> int) list"
  have op: "isOpened (VideoCapture lib ?src)"
    by (simp add: capture_pond clip_def)
  have w: "written pond_run = [pond_frame0, pond_frame1]" by (simp add: pond_run_def)
  then have l: "(1::nat) < length (written pond_run)" by simp
  have c: "last (drawn (written pond_run ! 1)) = count_text 2"
    by (simp add: w pond_frame1_def)
  have fc: "frame_contours lib (backSub ?s) 0 = (?cnts, 0, ())"
    by (simp add: frame_contours_def lib_def)
  have pf: "process_frame lib pond_args 0 ?s =
      (fst (process_frame lib pond_args 0 ?s), fst (snd (process_frame lib pond_args 0 ?s)),
       snd (snd (process_frame lib pond_args 0 ?s)))"
    by simp
  note inst = fish_count_is_frame_local [where L = lib and a = pond_args and img = 0
      and s = ?s and n = 7 and cnts = ?cnts and fgMask = 0 and bs' = "()"
      and m = "fst (process_frame lib pond_args 0 ?s)"
      and fr = "fst (snd (process_frame lib pond_args 0 ?s))"
      and s' = "snd (snd (process_frame lib pond_args 0 ?s))"
      and ucd = ascii_only and src = ?src and e = "Exit 0" and t = pond_run]
  from inst have 1: "process_frame lib pond_args 0 (?s\<lparr>fish_count := 7\<rparr>) =
      process_frame lib pond_args 0 ?s"
    by blast
  from inst fc pf
  have "fish_count (snd (snd (process_frame lib pond_args 0 ?s))) =
          length (filter (\<lambda>c. of_int (min_area pond_args) \<le> contourArea lib c) ?cnts) \<and>
        last (drawn (fst (snd (process_frame lib pond_args 0 ?s)))) =
          count_text (fish_count (snd (snd (process_frame lib pond_args 0 ?s))))"
    by blast
  moreover have "length (filter (\<lambda>c. of_int (min_area pond_args) \<le> contourArea lib c) ?cnts) = 1"
    by (simp add: pond_args_def lib_def)
  ultimately have 2: "fish_count (snd (snd (process_frame lib pond_args 0 ?s))) = 1"
    and 3: "last (drawn (fst (snd (process_frame lib pond_args 0 ?s)))) = count_text 1"
    by simp_all
  from inst select_pond op main_pond l
  have 4: "\<exists>img. cap_read (VideoCapture lib ?src) 1 = Some img \<and>
      last (drawn (written pond_run ! 1)) =
        count_text (length (filter (\<lambda>c. of_int (min_area pond_args) \<le> contourArea lib c)
          (fst (frame_contours lib (bs_before lib (VideoCapture lib ?src) 1) img))))"
    by blast
  from 1 2 3 4 op select_pond main_pond l c show ?thesis by blast
qed

section \<open>The choice of the source\<close>

text \<open>
  When every digit of the value of \<open>--video\<close> is a decimal digit, as in every ASCII
  string, lines 24 to 27 choose a source: a camera index when \<open>isdigit\<close> holds, the
  value itself as a file name otherwise.
\<close>

lemma int_digits_decimal:
  assumes "\<forall>c\<in>set s. \<exists>d. numeric_type_of ucd c = Decimal d"
  shows "\<exists>i. int_digits ucd s acc = Inr i"
  using assms by (induction s arbitrary: acc) auto

lemma select_source_decimal:
  assumes "\<forall>c\<in>set (video a). numeric_type_of ucd c \<noteq> NoDigit \<longrightarrow>
             (\<exists>d. numeric_type_of ucd c = Decimal d)"
  shows "(isdigit ucd (video a) \<longrightarrow> (\<exists>i. select_source ucd a = Inr (Index i))) \<and>
         (\<not> isdigit ucd (video a) \<longrightarrow> select_source ucd a = Inr (Filename (video a)))"
proof (cases "isdigit ucd (video a)")
  case False
  then show ?thesis by (simp add: select_source_def)
next
  case True
  then have "\<forall>c\<in>set (video a). numeric_type_of ucd c \<noteq> NoDigit" and ne: "video a \<noteq> []"
    by (simp_all add: isdigit_def list_all_iff)
  with assms have "\<forall>c\<in>set (video a). \<exists>d. numeric_type_of ucd c = Decimal d" by blast
  from int_digits_decimal [OF this, of 0] obtain i where "int_digits ucd (video a) 0 = Inr i"
    by blast
  with True ne show ?thesis by (simp add: select_source_def int_str_def)
qed

lemma select_source_007:
  "select_source ascii_only (pond_args\<lparr>video := py ''007''\<rparr>) = Inr (Index 7)"
  by (simp add: select_source_def isdigit_def numeric_type_of_def latin1_numeric_type_def
        py_def pond_args_def int_str_def)

text \<open>
  C8. The dispatch is not total. For the one-character value U+00B2, superscript two,
  \<open>isdigit\<close> holds, so line 25 calls \<open>int\<close> on it; \<open>int\<close> raises ValueError, which
  nothing catches, and the program ends before it has created a capture.
\<close>

theorem superscript_two_raises:
  "isdigit ucd [178] \<and>
   select_source ucd (a\<lparr>video := [178]\<rparr>) = Inl ValueError \<and>
   main ucd L (a\<lparr>video := [178]\<rparr>) = Some (Uncaught ValueError, [])"
proof -
  have d: "numeric_type_of ucd 178 = Digit 2"
    by (simp add: numeric_type_of_def latin1_numeric_type_def)
  have 1: "isdigit ucd [178]" by (simp add: isdigit_def d)
  have 2: "select_source ucd (a\<lparr>video := [178]\<rparr>) = Inl ValueError"
    by (simp add: select_source_def 1 int_str_def d)
  from main_raises [OF 2] 1 2 show ?thesis by simp
qed

end
